theory Spec2Isabelle
  imports Main "HOL-Library.Word" "HOL-Library.Log_Nat"
begin

unbundle bit_operations_syntax

section \<open>Machine types, errors and the register window\<close>

type_synonym u8 = "8 word"
type_synonym u32 = "32 word"
type_synonym u64 = "64 word"

text \<open>
  The driver's functions return \<open>0\<close> or a negated errno.  The errno values that the
  modelled functions produce are collected in one datatype; a status return is
  \<open>errno + unit\<close>, with \<open>Inr ()\<close> for the C value \<open>0\<close>.
\<close>

datatype errno = EINVAL | ENOMEM | EFAULT | ETIMEDOUT | EBUSY | ENODEV | EIO
  | ERESTARTSYS | ECANCELED | ENOENT | EINPROGRESS

type_synonym status = "errno + unit"

abbreviation OK :: status where
  "OK \<equiv> Inr ()"

text \<open>
  The register window.  \<open>mgpu_read\<close> is \<open>ioread32\<close> and \<open>mgpu_write\<close> is
  \<open>iowrite32\<close> (mgpu_internal.h): what a read returns is decided by the device, not by
  the driver, and it may differ from one read to the next.  The window is therefore a
  trace: the \<open>k\<close>-th read issued by the driver, at offset \<open>off\<close>, returns \<open>rd k off\<close>;
  \<open>nreads\<close> counts the reads issued so far and \<open>wlog\<close> is the sequence of writes
  (offset, value) the driver has issued, oldest first.
\<close>

record mmio =
  rd :: "nat \<Rightarrow> u32 \<Rightarrow> u32"
  nreads :: nat
  wlog :: "(u32 \<times> u32) list"

definition mgpu_read :: "mmio \<Rightarrow> u32 \<Rightarrow> u32 \<times> mmio" where
  "mgpu_read m off = (rd m (nreads m) off, m\<lparr>nreads := Suc (nreads m)\<rparr>)"

definition mgpu_write :: "mmio \<Rightarrow> u32 \<Rightarrow> u32 \<Rightarrow> mmio" where
  "mgpu_write m off v = m\<lparr>wlog := wlog m @ [(off, v)]\<rparr>"

definition MGPU_REG_STATUS :: u32 where "MGPU_REG_STATUS = 0x000C"
definition MGPU_REG_SCRATCH :: u32 where "MGPU_REG_SCRATCH = 0x0010"
definition MGPU_REG_CMD_BASE :: u32 where "MGPU_REG_CMD_BASE = 0x0040"
definition MGPU_REG_CMD_SIZE :: u32 where "MGPU_REG_CMD_SIZE = 0x0044"
definition MGPU_REG_CMD_HEAD :: u32 where "MGPU_REG_CMD_HEAD = 0x0048"
definition MGPU_REG_CMD_TAIL :: u32 where "MGPU_REG_CMD_TAIL = 0x004C"
definition MGPU_REG_FENCE_ADDR :: u32 where "MGPU_REG_FENCE_ADDR = 0x0060"
definition MGPU_REG_FENCE_VALUE :: u32 where "MGPU_REG_FENCE_VALUE = 0x0064"
definition MGPU_REG_VERTEX_BASE :: u32 where "MGPU_REG_VERTEX_BASE = 0x0080"
definition MGPU_REG_DOORBELL_BASE :: u32 where "MGPU_REG_DOORBELL_BASE = 0x2000"

definition MGPU_REG_DOORBELL :: "u32 \<Rightarrow> u32" where
  "MGPU_REG_DOORBELL n = MGPU_REG_DOORBELL_BASE + n * 4"

definition MGPU_RING_SIZE_MIN :: u32 where "MGPU_RING_SIZE_MIN = 4096"
definition MGPU_RING_SIZE_MAX :: u32 where "MGPU_RING_SIZE_MAX = 262144"
definition MGPU_MAX_QUEUES :: u32 where "MGPU_MAX_QUEUES = 16"

lemmas reg_defs = MGPU_REG_STATUS_def MGPU_REG_SCRATCH_def MGPU_REG_CMD_BASE_def
  MGPU_REG_CMD_SIZE_def MGPU_REG_CMD_HEAD_def MGPU_REG_CMD_TAIL_def
  MGPU_REG_FENCE_ADDR_def MGPU_REG_FENCE_VALUE_def MGPU_REG_VERTEX_BASE_def
  MGPU_REG_DOORBELL_BASE_def MGPU_REG_DOORBELL_def MGPU_RING_SIZE_MIN_def
  MGPU_RING_SIZE_MAX_def MGPU_MAX_QUEUES_def

section \<open>Command ring (mgpu_cmdq.c)\<close>

text \<open>
  \<open>struct mgpu_ring\<close>.  \<open>vaddr\<close> is the ring memory as dwords; \<open>size\<close> is in bytes and
  is called \<open>ring_size\<close> here.  \<open>size_t\<close> is modelled at 32 bits: every value computed
  from it is stored into a \<open>u32\<close>, and truncation commutes with \<open>+\<close> and \<open>-\<close>.
  The back pointer \<open>mdev\<close> is not a field: the functions take the register window.
\<close>

record mgpu_ring =
  vaddr :: "u32 list"
  dma_addr :: u64
  ring_size :: u32
  head :: u32
  tail :: u32
  queue_id :: u32
  submitted_cmds :: u64
  completed_cmds :: u64

text \<open>\<open>mgpu_ring_space\<close> as defined first in the file, before its callers.\<close>

definition mgpu_ring_space :: "mmio \<Rightarrow> mgpu_ring \<Rightarrow> u32 \<times> mmio" where
  "mgpu_ring_space m ring =
     (let (hd_v, m') = mgpu_read m (MGPU_REG_CMD_HEAD + queue_id ring * 0x10);
          tl_v = tail ring;
          space = (if hd_v \<le> tl_v then ring_size ring - (tl_v - hd_v) - 1
                   else hd_v - tl_v - 1)
      in (space, m'))"

text \<open>
  The second definition of the same name, \<open>static inline\<close>, after \<open>mgpu_cmdq_fini\<close>
  ("Get available space in ring (in dwords)").
\<close>

definition mgpu_ring_space_inline :: "mmio \<Rightarrow> mgpu_ring \<Rightarrow> u32 \<times> mmio" where
  "mgpu_ring_space_inline m ring =
     (let (hd_v, m') = mgpu_read m (MGPU_REG_CMD_HEAD + queue_id ring * 0x10);
          tl_v = tail ring;
          space = (if hd_v \<le> tl_v then (ring_size ring div 4) - (tl_v - hd_v) - 1
                   else hd_v - tl_v - 1)
      in (space, m'))"

text \<open>
  \<open>mgpu_ring_write\<close>: the loop over \<open>data[0..dwords)\<close> is a recursion over the
  payload.  A store at an index outside the buffer is outside the model: \<open>list_update\<close>
  leaves the list unchanged there.
\<close>

fun ring_write_loop :: "u32 \<Rightarrow> u32 list \<Rightarrow> u32 \<Rightarrow> u32 list \<Rightarrow> u32 list \<times> u32" where
  "ring_write_loop ring_size_dw ring_ptr tl_v [] = (ring_ptr, tl_v)"
| "ring_write_loop ring_size_dw ring_ptr tl_v (d # ds) =
     ring_write_loop ring_size_dw (ring_ptr[unat tl_v := d])
       ((tl_v + 1) AND (ring_size_dw - 1)) ds"

definition mgpu_ring_write :: "mgpu_ring \<Rightarrow> u32 list \<Rightarrow> mgpu_ring" where
  "mgpu_ring_write ring data =
     (let (ring_ptr, tl_v) = ring_write_loop (ring_size ring div 4) (vaddr ring) (tail ring) data
      in ring\<lparr>vaddr := ring_ptr, tail := tl_v\<rparr>)"

definition mgpu_ring_kick :: "mmio \<Rightarrow> mgpu_ring \<Rightarrow> mmio \<times> mgpu_ring" where
  "mgpu_ring_kick m ring =
     (let m1 = mgpu_write m (MGPU_REG_CMD_TAIL + queue_id ring * 0x10) (tail ring);
          m2 = mgpu_write m1 (MGPU_REG_DOORBELL (queue_id ring)) 1
      in (m2, ring\<lparr>submitted_cmds := submitted_cmds ring + 1\<rparr>))"

text \<open>
  \<open>is_power_of_2\<close> and \<open>roundup_pow_of_two\<close> are the kernel's helpers (log2.h):
  \<open>n != 0 && (n & (n - 1)) == 0\<close> and \<open>1UL << fls_long(n - 1)\<close>, where \<open>fls_long\<close>
  is the number of bits of its argument, \<open>floorlog 2\<close>.
\<close>

definition is_power_of_2 :: "u32 \<Rightarrow> bool" where
  "is_power_of_2 n = (n \<noteq> 0 \<and> n AND (n - 1) = 0)"

definition roundup_pow_of_two :: "u32 \<Rightarrow> u32" where
  "roundup_pow_of_two n = push_bit (floorlog 2 (unat (n - 1))) 1"

text \<open>
  \<open>mgpu_ring_create\<close>.  The two allocations (\<open>kzalloc\<close> of the ring,
  \<open>dma_alloc_coherent\<close> of its buffer) are one input: \<open>Some a\<close> when both succeed, the
  buffer at DMA address \<open>a\<close>, and \<open>None\<close> when either fails.  \<open>NULL\<close> is \<open>None\<close>.
\<close>

definition mgpu_ring_create :: "mmio \<Rightarrow> u64 option \<Rightarrow> u32 \<Rightarrow> u32 \<Rightarrow> mgpu_ring option \<times> mmio" where
  "mgpu_ring_create m alloc sz qid =
     (if sz < MGPU_RING_SIZE_MIN \<or> sz > MGPU_RING_SIZE_MAX then (None, m)
      else
        let sz' = (if \<not> is_power_of_2 sz then roundup_pow_of_two sz else sz) in
        case alloc of
          None \<Rightarrow> (None, m)
        | Some a \<Rightarrow>
            let ring = \<lparr>vaddr = replicate (unat sz' div 4) 0, dma_addr = a, ring_size = sz',
                         head = 0, tail = 0, queue_id = qid,
                         submitted_cmds = 0, completed_cmds = 0\<rparr>;
                m1 = mgpu_write m (MGPU_REG_CMD_BASE + qid * 0x10) (ucast a);
                m2 = mgpu_write m1 (MGPU_REG_CMD_SIZE + qid * 0x10) sz';
                m3 = mgpu_write m2 (MGPU_REG_CMD_HEAD + qid * 0x10) 0;
                m4 = mgpu_write m3 (MGPU_REG_CMD_TAIL + qid * 0x10) 0
            in (Some ring, m4))"

text \<open>A device that answers every read with zero and has seen no write yet.\<close>

definition quiet_mmio :: mmio where
  "quiet_mmio = \<lparr>rd = (\<lambda>k off. 0), nreads = 0, wlog = []\<rparr>"

text \<open>The ring after \<open>n\<close> one-dword NOP commands have been written to it.\<close>

definition write_nops :: "nat \<Rightarrow> mgpu_ring \<Rightarrow> mgpu_ring" where
  "write_nops n ring = ((\<lambda>r. mgpu_ring_write r [0x100]) ^^ n) ring"

section \<open>The device context\<close>

text \<open>
  \<open>struct mgpu_fence_context\<close> and \<open>struct mgpu_fence_wait\<close> (mgpu_fence.c).
  \<open>cpu_addr\<close> is the fence page as the host sees it, one \<open>u32\<close> per cell; the
  device writes it, so each call is given the page as it is at that moment.  \<open>seqno\<close>
  is an \<open>atomic_t\<close>, a 32-bit integer whose increment wraps.  A wait entry lives on
  its waiter's stack; \<open>waiter\<close> stands for its address.
\<close>

record mgpu_fence_wait =
  waiter :: nat
  wait_value :: u32
  signaled :: bool

record mgpu_fence_context =
  cpu_addr :: "u32 list"
  ctx_dma_addr :: u64
  seqno :: u32
  wait_list :: "mgpu_fence_wait list"

text \<open>
  The fields of \<open>struct mgpu_device\<close> that the modelled functions use.  \<open>in_reset\<close>
  and \<open>reset_count\<close> are \<open>atomic_t\<close>; \<open>reset_work_pending\<close> is the pending bit of the
  delayed work item \<open>reset_work\<close>.
\<close>

record mgpu_device =
  regs :: mmio
  cmd_ring :: "mgpu_ring option"
  fence_ctx :: "mgpu_fence_context option"
  in_reset :: u32
  reset_count :: u32
  reset_work_pending :: bool

definition PAGE_SIZE :: u64 where "PAGE_SIZE = 4096"

section \<open>Command submission (mgpu_cmdq.c)\<close>

text \<open>
  \<open>mgpu_ring_wait_space\<close>: \<open>timeout\<close> starts at 1000; each failed poll either
  gives up (\<open>timeout-- <= 0\<close>) or sleeps a millisecond and polls again.
\<close>

fun ring_wait_space_loop :: "nat \<Rightarrow> mmio \<Rightarrow> mgpu_ring \<Rightarrow> u32 \<Rightarrow> status \<times> mmio" where
  "ring_wait_space_loop timeout m ring needed =
     (if fst (mgpu_ring_space m ring) < needed
      then (if timeout = 0 then (Inl ETIMEDOUT, snd (mgpu_ring_space m ring))
            else ring_wait_space_loop (timeout - 1) (snd (mgpu_ring_space m ring)) ring needed)
      else (OK, snd (mgpu_ring_space m ring)))"

declare ring_wait_space_loop.simps [simp del]

definition mgpu_ring_wait_space :: "mmio \<Rightarrow> mgpu_ring \<Rightarrow> u32 \<Rightarrow> status \<times> mmio" where
  "mgpu_ring_wait_space m ring needed = ring_wait_space_loop 1000 m ring needed"

text \<open>
  \<open>struct mgpu_submit\<close> (mgpu_drm.h); \<open>bo_handles\<close> and \<open>num_bos\<close> are not read by
  the functions modelled.
\<close>

record mgpu_submit =
  s_commands :: u64
  s_cmd_size :: u32
  s_queue_id :: u32
  s_flags :: u32
  s_fence_addr :: u64
  s_fence_value :: u32

definition MGPU_SUBMIT_FLAGS_FENCE :: u32 where "MGPU_SUBMIT_FLAGS_FENCE = 1"
definition MGPU_SUBMIT_FLAGS_SYNC :: u32 where "MGPU_SUBMIT_FLAGS_SYNC = 2"
definition MGPU_CMD_FENCE :: u32 where "MGPU_CMD_FENCE = 0x04"

text \<open>
  What the kernel and the caller's address space decide during one call: the outcome of
  the allocations of a ring (as for \<open>mgpu_ring_create\<close>), whether \<open>kmalloc\<close> of the
  command copy succeeds, and the memory behind the \<open>commands\<close> pointer, byte by byte
  (\<open>None\<close> at an address where a copy faults).  \<open>copy_from_user\<close> copies \<open>n\<close>
  bytes and fails, with a non-zero count of bytes left, when one of them cannot be
  read; the result \<open>None\<close> is that failure.  The copy is then read as an array of
  \<open>u32\<close>: \<open>dwords_of_bytes\<close> is that view on a little-endian CPU, the bytes that do
  not fill a dword left out.
\<close>

record kenv =
  ring_alloc :: "u64 option"
  kmalloc_ok :: bool
  user_mem :: "u64 \<Rightarrow> u8 option"

definition copy_from_user :: "(u64 \<Rightarrow> u8 option) \<Rightarrow> u64 \<Rightarrow> nat \<Rightarrow> u8 list option" where
  "copy_from_user um ptr n =
     (let bs = map (\<lambda>i. um (ptr + of_nat i)) [0..<n]
      in if None \<in> set bs then None else Some (map the bs))"

fun dwords_of_bytes :: "u8 list \<Rightarrow> u32 list" where
  "dwords_of_bytes (b0 # b1 # b2 # b3 # bs) =
     (ucast b0 OR push_bit 8 (ucast b1) OR push_bit 16 (ucast b2) OR push_bit 24 (ucast b3))
       # dwords_of_bytes bs"
| "dwords_of_bytes bs = []"

text \<open>
  The polling loop of a synchronous submission, a \<open>do ... while (timeout-- > 0)\<close>.  The
  result is the value of \<open>timeout\<close> when the loop is left: the value at the \<open>break\<close>,
  or \<open>-1\<close> when the condition of the \<open>while\<close> fails.
\<close>

fun sync_wait_loop :: "nat \<Rightarrow> mmio \<Rightarrow> u32 \<Rightarrow> int \<times> mmio" where
  "sync_wait_loop timeout m qid =
     (let r1 = mgpu_read m (MGPU_REG_CMD_HEAD + qid * 0x10);
          r2 = mgpu_read (snd r1) (MGPU_REG_CMD_TAIL + qid * 0x10)
      in if fst r1 = fst r2 then (int timeout, snd r2)
         else if timeout > 0 then sync_wait_loop (timeout - 1) (snd r2) qid
         else (-1, snd r2))"

declare sync_wait_loop.simps [simp del]

text \<open>
  \<open>mgpu_submit_commands\<close>.  The ring is reached through the pointer
  \<open>mdev->cmd_ring\<close>, so every change to it is a change of \<open>cmd_ring mdev\<close>.
  \<open>cmd_size\<close> bytes are copied from the caller, and the first \<open>cmd_size / 4\<close> dwords
  of the copy are written to the ring.
\<close>

definition submit_finish :: "mgpu_device \<Rightarrow> mgpu_ring \<Rightarrow> mgpu_submit \<Rightarrow> status \<times> mgpu_device" where
  "submit_finish mdev ring args =
     (let (m1, ring1) = mgpu_ring_kick (regs mdev) ring;
          mdev1 = mdev\<lparr>regs := m1, cmd_ring := Some ring1\<rparr>
      in if s_flags args AND MGPU_SUBMIT_FLAGS_SYNC \<noteq> 0
         then
           let (timeout, m2) = sync_wait_loop 1000 m1 (queue_id ring1)
           in if timeout \<le> 0 then (Inl ETIMEDOUT, mdev1\<lparr>regs := m2\<rparr>)
              else (OK, mdev1\<lparr>regs := m2\<rparr>)
         else (OK, mdev1))"

definition submit_to_ring ::
    "mgpu_device \<Rightarrow> mgpu_ring \<Rightarrow> mgpu_submit \<Rightarrow> u32 list \<Rightarrow> status \<times> mgpu_device" where
  "submit_to_ring mdev ring args cmds =
     (let (ret, m1) = mgpu_ring_wait_space (regs mdev) ring (s_cmd_size args div 4)
      in if ret \<noteq> OK then (ret, mdev\<lparr>regs := m1\<rparr>)
         else
           let ring1 = mgpu_ring_write ring cmds;
               mdev1 = mdev\<lparr>regs := m1, cmd_ring := Some ring1\<rparr>
           in if s_flags args AND MGPU_SUBMIT_FLAGS_FENCE \<noteq> 0
              then
                let fence_cmd = [MGPU_CMD_FENCE OR push_bit 8 3, ucast (s_fence_addr args),
                                 s_fence_value args];
                    (ret2, m2) = mgpu_ring_wait_space m1 ring1 3
                in if ret2 \<noteq> OK then (ret2, mdev1\<lparr>regs := m2\<rparr>)
                   else submit_finish (mdev1\<lparr>regs := m2\<rparr>) (mgpu_ring_write ring1 fence_cmd) args
              else submit_finish mdev1 ring1 args)"

definition submit_copy_and_write ::
    "kenv \<Rightarrow> mgpu_device \<Rightarrow> mgpu_ring \<Rightarrow> mgpu_submit \<Rightarrow> status \<times> mgpu_device" where
  "submit_copy_and_write env mdev ring args =
     (if \<not> kmalloc_ok env then (Inl ENOMEM, mdev)
      else case copy_from_user (user_mem env) (s_commands args) (unat (s_cmd_size args)) of
             None \<Rightarrow> (Inl EFAULT, mdev)
           | Some bytes \<Rightarrow>
               submit_to_ring mdev ring args
                 (take (unat (s_cmd_size args div 4)) (dwords_of_bytes bytes)))"

definition mgpu_submit_commands :: "kenv \<Rightarrow> mgpu_device \<Rightarrow> mgpu_submit \<Rightarrow> status \<times> mgpu_device" where
  "mgpu_submit_commands env mdev args =
     (if s_commands args = 0 \<or> s_cmd_size args = 0 then (Inl EINVAL, mdev)
      else if s_queue_id args \<ge> MGPU_MAX_QUEUES then (Inl EINVAL, mdev)
      else case cmd_ring mdev of
             Some ring \<Rightarrow> submit_copy_and_write env mdev ring args
           | None \<Rightarrow>
               (case mgpu_ring_create (regs mdev) (ring_alloc env) MGPU_RING_SIZE_MIN
                       (s_queue_id args) of
                  (None, m) \<Rightarrow> (Inl ENOMEM, mdev\<lparr>regs := m\<rparr>)
                | (Some ring, m) \<Rightarrow>
                    submit_copy_and_write env (mdev\<lparr>regs := m, cmd_ring := Some ring\<rparr>) ring args))"

definition mgpu_cmdq_init :: "kenv \<Rightarrow> mgpu_device \<Rightarrow> status \<times> mgpu_device" where
  "mgpu_cmdq_init env mdev =
     (case mgpu_ring_create (regs mdev) (ring_alloc env) MGPU_RING_SIZE_MIN 0 of
        (None, m) \<Rightarrow> (Inl ENOMEM, mdev\<lparr>regs := m, cmd_ring := None\<rparr>)
      | (Some ring, m) \<Rightarrow> (OK, mdev\<lparr>regs := m, cmd_ring := Some ring\<rparr>))"


section \<open>Fence engine (mgpu_fence.c)\<close>

text \<open>
  \<open>mgpu_fence_init\<close>: \<open>alloc\<close> is the outcome of the two allocations, as for the ring.
\<close>

definition mgpu_fence_init :: "mgpu_device \<Rightarrow> u64 option \<Rightarrow> status \<times> mgpu_device" where
  "mgpu_fence_init mdev alloc =
     (case alloc of
        None \<Rightarrow> (Inl ENOMEM, mdev)
      | Some a \<Rightarrow>
          let ctx = \<lparr>cpu_addr = replicate (unat PAGE_SIZE div 4) 0, ctx_dma_addr = a,
                      seqno = 0, wait_list = []\<rparr>
          in (OK, mdev\<lparr>regs := mgpu_write (regs mdev) MGPU_REG_FENCE_ADDR (ucast a),
                       fence_ctx := Some ctx\<rparr>))"

definition mgpu_fence_next :: "mgpu_device \<Rightarrow> u32 \<times> mgpu_device" where
  "mgpu_fence_next mdev =
     (case fence_ctx mdev of
        None \<Rightarrow> (0, mdev)
      | Some ctx \<Rightarrow>
          let v = seqno ctx + 1
          in (v, mdev\<lparr>fence_ctx := Some (ctx\<lparr>seqno := v\<rparr>)\<rparr>))"

definition mgpu_fence_signaled :: "mgpu_device \<Rightarrow> u64 \<Rightarrow> u32 \<Rightarrow> bool" where
  "mgpu_fence_signaled mdev fence_addr fence_value =
     (case fence_ctx mdev of
        None \<Rightarrow> True
      | Some ctx \<Rightarrow>
          if fence_addr < ctx_dma_addr ctx \<or> fence_addr \<ge> ctx_dma_addr ctx + PAGE_SIZE
          then True
          else
            let current_value = cpu_addr ctx ! unat ((fence_addr - ctx_dma_addr ctx) div 4)
            in current_value \<ge> fence_value)"

text \<open>The device after \<open>n\<close> successive calls of \<open>mgpu_fence_next\<close>.\<close>

fun fence_next_calls :: "nat \<Rightarrow> mgpu_device \<Rightarrow> mgpu_device" where
  "fence_next_calls 0 mdev = mdev"
| "fence_next_calls (Suc n) mdev = snd (mgpu_fence_next (fence_next_calls n mdev))"

text \<open>A device at probe time: nothing initialised, a quiet register window.\<close>

definition probe_device :: mgpu_device where
  "probe_device = \<lparr>regs = quiet_mmio, cmd_ring = None, fence_ctx = None,
                    in_reset = 0, reset_count = 0, reset_work_pending = False\<rparr>"

text \<open>
  Sleeping.  \<open>wait_event_interruptible_timeout\<close> is the kernel's macro (wait.h); its
  loop is modelled over the sequence of the waiter's wake-ups.  One \<open>wakeup\<close> is one
  pass of the loop: whether a signal is pending when the task enters the pass, the fence
  page as it is when the condition is evaluated, and, if the task then sleeps, the
  number of jiffies that pass before it runs again.  When the sequence is used up the
  task is still asleep: the result is \<open>None\<close>, the call has not returned.
  \<open>schedule_timeout\<close> returns the jiffies that remain, zero when the timer has
  expired, and \<open>MAX_SCHEDULE_TIMEOUT\<close> (\<open>LONG_MAX\<close>) when called with it: no timer is
  armed.  \<open>msecs_to_jiffies\<close> takes an \<open>unsigned int\<close>: a value that is negative
  as an \<open>int\<close> gives \<open>MAX_JIFFY_OFFSET\<close>, every other one is rounded up to whole
  jiffies; \<open>hz\<close> is the kernel's \<open>HZ\<close>, a divisor of 1000.
\<close>

record wakeup =
  sig_pending :: bool
  page :: "u32 list"
  slept :: nat

definition MAX_SCHEDULE_TIMEOUT :: nat where
  "MAX_SCHEDULE_TIMEOUT = 2 ^ 63 - 1"

definition MAX_JIFFY_OFFSET :: nat where
  "MAX_JIFFY_OFFSET = MAX_SCHEDULE_TIMEOUT div 2 - 1"

definition msecs_to_jiffies :: "nat \<Rightarrow> u32 \<Rightarrow> nat" where
  "msecs_to_jiffies hz m =
     (if m \<ge> 0x80000000 then MAX_JIFFY_OFFSET else (unat m * hz + 999) div 1000)"

definition schedule_timeout :: "nat \<Rightarrow> nat \<Rightarrow> nat" where
  "schedule_timeout t s = (if t = MAX_SCHEDULE_TIMEOUT then MAX_SCHEDULE_TIMEOUT else t - s)"

fun wait_event_loop :: "(u32 list \<Rightarrow> bool) \<Rightarrow> nat \<Rightarrow> wakeup list \<Rightarrow> (errno + nat) option" where
  "wait_event_loop cond ret [] = None"
| "wait_event_loop cond ret (w # ws) =
     (let c = cond (page w);
          ret' = (if c \<and> ret = 0 then 1 else ret)
      in if c \<or> ret' = 0 then Some (Inr ret')
         else if sig_pending w then Some (Inl ERESTARTSYS)
         else wait_event_loop cond (schedule_timeout ret' (slept w)) ws)"

definition wait_event_interruptible_timeout ::
    "(u32 list \<Rightarrow> bool) \<Rightarrow> u32 list \<Rightarrow> nat \<Rightarrow> wakeup list \<Rightarrow> (errno + nat) option" where
  "wait_event_interruptible_timeout cond page0 timeout ws =
     (let c = cond page0;
          ret = (if c \<and> timeout = 0 then 1 else timeout)
      in if c \<or> ret = 0 then Some (Inr ret) else wait_event_loop cond ret ws)"

text \<open>\<open>struct mgpu_wait_fence\<close> (mgpu_drm.h), the argument of \<open>mgpu_wait_fence\<close>.\<close>

record mgpu_wait_fence_args =
  wf_fence_addr :: u64
  wf_fence_value :: u32
  wf_timeout_ms :: u32

text \<open>
  \<open>mgpu_wait_fence\<close>.  \<open>w\<close> is the address of the caller's stack entry.  The result
  is \<open>None\<close> with the entry still on the wait list while the caller sleeps, and the
  status with the entry removed once the wait has returned.
\<close>

definition set_fence_page :: "mgpu_device \<Rightarrow> u32 list \<Rightarrow> mgpu_device" where
  "set_fence_page mdev pg = mdev\<lparr>fence_ctx := map_option (\<lambda>c. c\<lparr>cpu_addr := pg\<rparr>) (fence_ctx mdev)\<rparr>"

definition mgpu_wait_fence ::
    "nat \<Rightarrow> nat \<Rightarrow> wakeup list \<Rightarrow> mgpu_device \<Rightarrow> mgpu_wait_fence_args \<Rightarrow> status option \<times> mgpu_device" where
  "mgpu_wait_fence hz w ws mdev args =
     (case fence_ctx mdev of
        None \<Rightarrow> (Some (Inl ENODEV), mdev)
      | Some ctx \<Rightarrow>
          if mgpu_fence_signaled mdev (wf_fence_addr args) (wf_fence_value args)
          then (Some OK, mdev)
          else
            let wait_entry = \<lparr>waiter = w, wait_value = wf_fence_value args, signaled = False\<rparr>;
                enrolled = mdev\<lparr>fence_ctx := Some (ctx\<lparr>wait_list := wait_list ctx @ [wait_entry]\<rparr>)\<rparr>;
                timeout = (if wf_timeout_ms args = 0 then MAX_SCHEDULE_TIMEOUT
                           else msecs_to_jiffies hz (wf_timeout_ms args));
                removed = mdev\<lparr>fence_ctx := Some (ctx\<lparr>wait_list :=
                            filter (\<lambda>e. waiter e \<noteq> w) (wait_list ctx @ [wait_entry])\<rparr>)\<rparr>
            in (case wait_event_interruptible_timeout
                       (\<lambda>pg. mgpu_fence_signaled (set_fence_page mdev pg)
                                 (wf_fence_addr args) (wf_fence_value args))
                       (cpu_addr ctx) timeout ws of
                  None \<Rightarrow> (None, enrolled)
                | Some (Inr r) \<Rightarrow> if r = 0 then (Some (Inl ETIMEDOUT), removed)
                                  else (Some OK, removed)
                | Some (Inl e) \<Rightarrow> (Some (Inl e), removed)))"

section \<open>Reset (mgpu_reset.c)\<close>

definition mgpu_reset_init :: "mgpu_device \<Rightarrow> mgpu_device" where
  "mgpu_reset_init mdev = mdev\<lparr>in_reset := 0, reset_count := 0, reset_work_pending := False\<rparr>"

text \<open>
  \<open>mgpu_reset_schedule\<close>.  \<open>schedule_delayed_work\<close> queues the work item unless it
  is already pending: in both cases the item is pending afterwards.
\<close>

definition mgpu_reset_schedule :: "mgpu_device \<Rightarrow> mgpu_device" where
  "mgpu_reset_schedule mdev =
     (if in_reset mdev \<noteq> 0 then mdev
      else mdev\<lparr>reset_count := reset_count mdev + 1, reset_work_pending := True\<rparr>)"

text \<open>
  \<open>mgpu_reset_work\<close> logs a warning, sets \<open>in_reset\<close>, runs the hardware sequence
  (stop the queue, wait for idle, dump, mask interrupts, reset, re-initialise, resume
  the queue, unmask) and clears \<open>in_reset\<close> on every path, the failing ones through
  the label \<open>out\<close>.  The hardware sequence works on the register window and the ring
  only; it is the parameter \<open>hw\<close>.  The function is split where other threads can
  observe it: after the flag is set and after it is cleared.
\<close>

type_synonym hw_sequence = "mmio \<times> mgpu_ring option \<Rightarrow> mmio \<times> mgpu_ring option"

definition mgpu_reset_work_begin :: "mgpu_device \<Rightarrow> mgpu_device" where
  "mgpu_reset_work_begin mdev = mdev\<lparr>in_reset := 1\<rparr>"

definition mgpu_reset_work_end :: "hw_sequence \<Rightarrow> mgpu_device \<Rightarrow> mgpu_device" where
  "mgpu_reset_work_end hw mdev =
     (let (m, r) = hw (regs mdev, cmd_ring mdev)
      in mdev\<lparr>regs := m, cmd_ring := r, in_reset := 0\<rparr>)"

definition mgpu_reset_work :: "hw_sequence \<Rightarrow> mgpu_device \<Rightarrow> mgpu_device" where
  "mgpu_reset_work hw mdev = mgpu_reset_work_end hw (mgpu_reset_work_begin mdev)"

text \<open>
  The threads around the reset: callers of \<open>mgpu_reset_schedule\<close> and the kernel
  worker that runs the pending work item.  The worker takes the item off the queue and
  clears its pending bit (\<open>WorkerDequeue\<close>), then calls \<open>mgpu_reset_work\<close>, which
  reaches \<open>atomic_set(&mdev->in_reset, 1)\<close> only after its first statement
  (\<open>WorkerSetFlag\<close>), and returns after the flag is cleared (\<open>WorkerFinish\<close>).  A
  work item is never run twice at the same time: an item queued again while it runs
  waits until the run is over.  Callers of \<open>mgpu_reset_schedule\<close> can run between any
  two of these steps; the event \<open>Schedule\<close> is one whole call, from its read of
  \<open>in_reset\<close> to its return, with no step of the worker inside it.  \<open>cycles\<close>
  counts the executions of \<open>mgpu_reset_work\<close> that have started.
\<close>

datatype reset_event = Schedule | WorkerDequeue | WorkerSetFlag | WorkerFinish

datatype worker_phase = WorkerIdle | WorkerCalled | WorkerInReset

record reset_sys =
  dev :: mgpu_device
  phase :: worker_phase
  cycles :: nat

fun reset_step :: "hw_sequence \<Rightarrow> reset_sys \<Rightarrow> reset_event \<Rightarrow> reset_sys" where
  "reset_step hw s Schedule = s\<lparr>dev := mgpu_reset_schedule (dev s)\<rparr>"
| "reset_step hw s WorkerDequeue =
     (if reset_work_pending (dev s) \<and> phase s = WorkerIdle
      then s\<lparr>dev := (dev s)\<lparr>reset_work_pending := False\<rparr>,
             phase := WorkerCalled, cycles := cycles s + 1\<rparr>
      else s)"
| "reset_step hw s WorkerSetFlag =
     (if phase s = WorkerCalled
      then s\<lparr>dev := mgpu_reset_work_begin (dev s), phase := WorkerInReset\<rparr>
      else s)"
| "reset_step hw s WorkerFinish =
     (if phase s = WorkerInReset
      then s\<lparr>dev := mgpu_reset_work_end hw (dev s), phase := WorkerIdle\<rparr>
      else s)"

definition reset_run :: "hw_sequence \<Rightarrow> reset_event list \<Rightarrow> reset_sys \<Rightarrow> reset_sys" where
  "reset_run hw evs s = foldl (reset_step hw) s evs"

text \<open>The reset state after \<open>mgpu_reset_init\<close> at probe time, the worker idle.\<close>

definition reset_sys_example :: reset_sys where
  "reset_sys_example = \<lparr>dev = mgpu_reset_init probe_device, phase = WorkerIdle, cycles = 0\<rparr>"

section \<open>Health monitoring (mgpu_health.c)\<close>

text \<open>
  \<open>struct mgpu_health_monitor\<close>, the fields the checks use.  The \<open>unsigned long\<close>
  statistics are natural numbers: nothing here depends on their width.  \<open>jf\<close> is
  \<open>jiffies\<close> and \<open>kt\<close> is \<open>ktime_get()\<close> at the time of the call.
\<close>

record mgpu_health_monitor =
  check_count :: nat
  error_count :: nat
  hang_count :: nat
  recovery_count :: nat
  heartbeat_misses :: nat
  last_check :: nat
  last_error :: nat
  last_hang :: nat
  consecutive_errors :: u32
  last_fence_value :: u32
  last_cmd_head :: u32
  last_activity :: nat
  heartbeat_counter :: u32
  last_heartbeat :: nat

definition MGPU_HEARTBEAT_TIMEOUT_MS :: u32 where "MGPU_HEARTBEAT_TIMEOUT_MS = 5000"
definition MGPU_ERROR_THRESHOLD :: u32 where "MGPU_ERROR_THRESHOLD = 10"
definition MGPU_STATUS_BUSY :: u32 where "MGPU_STATUS_BUSY = 2"
definition MGPU_STATUS_ERROR :: u32 where "MGPU_STATUS_ERROR = 4"
definition MGPU_STATUS_HALTED :: u32 where "MGPU_STATUS_HALTED = 8"

text \<open>\<open>mgpu_error_table\<close>: the code and the \<open>recoverable\<close> flag of each row.\<close>

definition mgpu_error_table :: "(u32 \<times> bool) list" where
  "mgpu_error_table = [(0, False), (1, True), (2, True), (3, True), (4, True), (5, True)]"

definition mgpu_get_error_info :: "u32 \<Rightarrow> u32 \<times> bool" where
  "mgpu_get_error_info error_code =
     (case find (\<lambda>e. fst e = error_code) mgpu_error_table of
        Some e \<Rightarrow> e
      | None \<Rightarrow> mgpu_error_table ! 0)"

definition mgpu_health_check_heartbeat ::
    "nat \<Rightarrow> mgpu_health_monitor \<Rightarrow> mmio \<Rightarrow> bool \<times> mgpu_health_monitor \<times> mmio" where
  "mgpu_health_check_heartbeat jf monitor m =
     (let mon1 = monitor\<lparr>heartbeat_counter := heartbeat_counter monitor + 1\<rparr>;
          m1 = mgpu_write m MGPU_REG_SCRATCH (heartbeat_counter mon1);
          (scratch, m2) = mgpu_read m1 MGPU_REG_SCRATCH
      in if scratch \<noteq> heartbeat_counter mon1
         then (False, mon1\<lparr>heartbeat_misses := heartbeat_misses mon1 + 1, last_heartbeat := jf\<rparr>, m2)
         else (True, mon1\<lparr>last_heartbeat := jf\<rparr>, m2))"

text \<open>\<open>time_after(a, b)\<close> on times that have not wrapped.\<close>

definition time_after :: "nat \<Rightarrow> nat \<Rightarrow> bool" where
  "time_after a b = (b < a)"

definition mgpu_health_check_hang ::
    "nat \<Rightarrow> nat \<Rightarrow> nat \<Rightarrow> mgpu_health_monitor \<Rightarrow> mmio \<Rightarrow> bool \<times> mgpu_health_monitor \<times> mmio" where
  "mgpu_health_check_hang hz jf kt monitor m =
     (let (status, m1) = mgpu_read m MGPU_REG_STATUS
      in if status AND MGPU_STATUS_BUSY = 0 then (False, monitor, m1)
         else
           let (cmd_head, m2) = mgpu_read m1 MGPU_REG_CMD_HEAD;
               stuck1 = (cmd_head = last_cmd_head monitor);
               hung1 = (stuck1 \<and> time_after jf
                          (last_activity monitor + msecs_to_jiffies hz MGPU_HEARTBEAT_TIMEOUT_MS));
               mon1 = (if stuck1 then monitor
                       else monitor\<lparr>last_cmd_head := cmd_head, last_activity := jf\<rparr>);
               (fence_value, m3) = mgpu_read m2 MGPU_REG_FENCE_VALUE;
               stuck2 = (fence_value = last_fence_value mon1);
               hung2 = (stuck2 \<and> time_after jf
                          (last_activity mon1 + msecs_to_jiffies hz MGPU_HEARTBEAT_TIMEOUT_MS));
               mon2 = (if stuck2 then mon1
                       else mon1\<lparr>last_fence_value := fence_value, last_activity := jf\<rparr>);
               hung = (hung1 \<or> hung2);
               mon3 = (if hung then mon2\<lparr>hang_count := hang_count mon2 + 1, last_hang := kt\<rparr>
                       else mon2)
           in (hung, mon3, m3))"

definition mgpu_health_check_errors ::
    "nat \<Rightarrow> mgpu_health_monitor \<Rightarrow> mmio \<Rightarrow> nat \<times> mgpu_health_monitor \<times> mmio" where
  "mgpu_health_check_errors kt monitor m =
     (let (status, m1) = mgpu_read m MGPU_REG_STATUS;
          err = (status AND MGPU_STATUS_ERROR \<noteq> 0);
          info = mgpu_get_error_info (drop_bit 16 status AND 0xFF);
          mon1 = (if err
                  then monitor\<lparr>error_count := error_count monitor + 1, last_error := kt,
                                consecutive_errors := consecutive_errors monitor + 1\<rparr>
                  else monitor\<lparr>consecutive_errors := 0\<rparr>);
          m2 = (if err \<and> snd info
                then mgpu_write m1 MGPU_REG_STATUS (status AND NOT MGPU_STATUS_ERROR) else m1);
          n1 = (if err then 1 else 0);
          n2 = (if status AND MGPU_STATUS_HALTED \<noteq> 0 then n1 + 1 else n1)
      in (n2, mon1, m2))"

definition mgpu_health_check ::
    "nat \<Rightarrow> nat \<Rightarrow> nat \<Rightarrow> mgpu_health_monitor \<Rightarrow> mgpu_device \<Rightarrow> mgpu_health_monitor \<times> mgpu_device" where
  "mgpu_health_check hz jf kt monitor mdev =
     (let mon0 = monitor\<lparr>check_count := check_count monitor + 1, last_check := kt\<rparr>;
          (alive, mon1, m1) = mgpu_health_check_heartbeat jf mon0 (regs mdev);
          reset1 = (\<not> alive);
          (errors, mon2, m2) = mgpu_health_check_errors kt mon1 m1;
          reset2 = (reset1 \<or> (errors > 0 \<and> consecutive_errors mon2 \<ge> MGPU_ERROR_THRESHOLD));
          (hung, mon3, m3) = mgpu_health_check_hang hz jf kt mon2 m2;
          needs_reset = (reset2 \<or> hung);
          mdev1 = mdev\<lparr>regs := m3\<rparr>
      in if needs_reset
         then (mon3\<lparr>recovery_count := recovery_count mon3 + 1\<rparr>, mgpu_reset_schedule mdev1)
         else (mon3, mdev1))"

text \<open>A monitor that has made no check yet.\<close>

definition fresh_monitor :: mgpu_health_monitor where
  "fresh_monitor = \<lparr>check_count = 0, error_count = 0, hang_count = 0, recovery_count = 0,
     heartbeat_misses = 0, last_check = 0, last_error = 0, last_hang = 0,
     consecutive_errors = 0, last_fence_value = 0, last_cmd_head = 0, last_activity = 0,
     heartbeat_counter = 0, last_heartbeat = 0\<rparr>"

section \<open>Job scheduler (mgpu_sched.c)\<close>

datatype mgpu_job_priority =
  MGPU_PRIORITY_LOW | MGPU_PRIORITY_NORMAL | MGPU_PRIORITY_HIGH | MGPU_PRIORITY_REALTIME

datatype mgpu_job_state =
  MGPU_JOB_PENDING | MGPU_JOB_QUEUED | MGPU_JOB_RUNNING | MGPU_JOB_COMPLETED
  | MGPU_JOB_ABORTED | MGPU_JOB_TIMEOUT

datatype mgpu_job_type =
  MGPU_JOB_TYPE_DRAW | MGPU_JOB_TYPE_COMPUTE | MGPU_JOB_TYPE_DMA | MGPU_JOB_TYPE_FENCE

text \<open>
  \<open>struct mgpu_job\<close>.  \<open>commands\<close> is the pointer to the command copy, zero for
  \<open>NULL\<close>; \<open>dep_count\<close> is an \<open>atomic_t\<close>; \<open>completion_done\<close> is the \<open>done\<close>
  count of the completion; \<open>result\<close> is the result code.
\<close>

record mgpu_job =
  job_id :: u64
  job_type :: mgpu_job_type
  priority :: mgpu_job_priority
  state :: mgpu_job_state
  commands :: u64
  cmd_size :: u32
  job_queue_id :: u32
  dep_count :: u32
  fence_addr :: u64
  fence_value :: u32
  start_time :: nat
  timeout_ms :: u32
  completion_done :: u32
  result :: status

text \<open>
  \<open>struct mgpu_queue\<close> and \<open>struct mgpu_scheduler\<close>.  Jobs are shared objects
  reached through pointers: \<open>jobs\<close> is the store of the job objects by address
  (\<open>None\<close> for \<open>NULL\<close> and for addresses that hold no job), and a priority bucket is
  the list of the addresses linked into it, first entry first.  \<open>queues\<close> is the array
  of queue pointers.
\<close>

record mgpu_queue =
  q_queue_id :: u32
  queue_depth :: u32
  pending_starts :: u32
  busy :: bool
  pending :: "mgpu_job_priority \<Rightarrow> nat list"
  current_job :: "nat option"
  jobs_submitted :: u64
  jobs_completed :: u64

record mgpu_scheduler =
  queues :: "u32 \<Rightarrow> mgpu_queue option"
  num_queues :: u32
  jobs :: "nat \<Rightarrow> mgpu_job option"
  total_jobs :: u64

definition mgpu_job_is_ready :: "mgpu_job \<Rightarrow> bool" where
  "mgpu_job_is_ready job = (dep_count job = 0 \<and> state job = MGPU_JOB_PENDING)"

text \<open>
  \<open>mgpu_queue_submit_job\<close>; \<open>jf\<close> is the time of the call.  The function changes the
  queue, the job and, through \<open>mgpu_submit_commands\<close>, the device.
\<close>

definition mgpu_queue_submit_job ::
    "kenv \<Rightarrow> nat \<Rightarrow> mgpu_device \<Rightarrow> mgpu_queue \<Rightarrow> nat \<Rightarrow> mgpu_job
      \<Rightarrow> status \<times> mgpu_device \<times> mgpu_queue \<times> mgpu_job" where
  "mgpu_queue_submit_job env jf mdev queue p job =
     (if pending_starts queue \<ge> queue_depth queue then (Inl EBUSY, mdev, queue, job)
      else
        let job1 = job\<lparr>state := MGPU_JOB_RUNNING, start_time := jf\<rparr>;
            queue1 = queue\<lparr>current_job := Some p\<rparr>;
            submit = \<lparr>s_commands = commands job1, s_cmd_size = cmd_size job1,
                      s_queue_id = q_queue_id queue1,
                      s_flags = (if fence_addr job1 \<noteq> 0 then MGPU_SUBMIT_FLAGS_FENCE else 0),
                      s_fence_addr = fence_addr job1, s_fence_value = fence_value job1\<rparr>;
            (ret, mdev1) = mgpu_submit_commands env mdev submit
        in if ret \<noteq> OK
           then (ret, mdev1, queue1\<lparr>current_job := None\<rparr>, job1\<lparr>state := MGPU_JOB_ABORTED\<rparr>)
           else (OK, mdev1, queue1\<lparr>pending_starts := pending_starts queue1 + 1,
                                   jobs_submitted := jobs_submitted queue1 + 1\<rparr>, job1))"

text \<open>
  The scan of \<open>mgpu_sched_process_queue\<close>: buckets from realtime down to low, each
  in list order, up to the first job that is ready.
\<close>

definition priority_scan_order :: "mgpu_job_priority list" where
  "priority_scan_order =
     [MGPU_PRIORITY_REALTIME, MGPU_PRIORITY_HIGH, MGPU_PRIORITY_NORMAL, MGPU_PRIORITY_LOW]"

definition ready_at :: "mgpu_scheduler \<Rightarrow> nat \<Rightarrow> bool" where
  "ready_at sched p = (case jobs sched p of None \<Rightarrow> False | Some job \<Rightarrow> mgpu_job_is_ready job)"

fun first_ready :: "mgpu_scheduler \<Rightarrow> mgpu_queue \<Rightarrow> mgpu_job_priority list
                     \<Rightarrow> (mgpu_job_priority \<times> nat) option" where
  "first_ready sched queue [] = None"
| "first_ready sched queue (prio # prios) =
     (case find (ready_at sched) (pending queue prio) of
        Some p \<Rightarrow> Some (prio, p)
      | None \<Rightarrow> first_ready sched queue prios)"

definition mgpu_sched_process_queue ::
    "kenv \<Rightarrow> nat \<Rightarrow> mgpu_scheduler \<Rightarrow> mgpu_device \<Rightarrow> u32 \<Rightarrow> mgpu_scheduler \<times> mgpu_device" where
  "mgpu_sched_process_queue env jf sched mdev qid =
     (case queues sched qid of
        None \<Rightarrow> (sched, mdev)
      | Some queue \<Rightarrow>
          if current_job queue \<noteq> None \<or> pending_starts queue \<ge> queue_depth queue
          then (sched, mdev)
          else
            (case first_ready sched queue priority_scan_order of
               None \<Rightarrow> (sched, mdev)
             | Some (prio, p) \<Rightarrow>
                 let queue1 = queue\<lparr>pending := (pending queue)(prio := remove1 p (pending queue prio))\<rparr>;
                     (ret, mdev1, queue2, job2) =
                        mgpu_queue_submit_job env jf mdev queue1 p (the (jobs sched p));
                     queue3 = (if ret = OK then queue2
                               else queue2\<lparr>pending := (pending queue2)(prio := p # pending queue2 prio)\<rparr>)
                 in (sched\<lparr>queues := (queues sched)(qid := Some queue3),
                           jobs := (jobs sched)(p := Some job2)\<rparr>, mdev1)))"

definition mgpu_sched_submit_job :: "mgpu_scheduler \<Rightarrow> nat \<Rightarrow> status \<times> mgpu_scheduler" where
  "mgpu_sched_submit_job sched p =
     (case jobs sched p of
        None \<Rightarrow> (Inl EINVAL, sched)
      | Some job \<Rightarrow>
          if commands job = 0 \<or> cmd_size job = 0 then (Inl EINVAL, sched)
          else
            let job1 = (if job_queue_id job \<ge> num_queues sched
                        then job\<lparr>job_queue_id :=
                               (case job_type job of
                                  MGPU_JOB_TYPE_COMPUTE \<Rightarrow> if num_queues sched > 1 then 1 else 0
                                | MGPU_JOB_TYPE_DMA \<Rightarrow> if num_queues sched > 2 then 2 else 0
                                | _ \<Rightarrow> 0)\<rparr>
                        else job)
            in (case queues sched (job_queue_id job1) of
                  None \<Rightarrow> (Inl EINVAL, sched\<lparr>jobs := (jobs sched)(p := Some job1)\<rparr>)
                | Some queue \<Rightarrow>
                    let queue1 = queue\<lparr>pending := (pending queue)
                                   (priority job1 := pending queue (priority job1) @ [p])\<rparr>
                    in (OK, sched\<lparr>queues := (queues sched)(job_queue_id job1 := Some queue1),
                                  jobs := (jobs sched)(p := Some (job1\<lparr>state := MGPU_JOB_QUEUED\<rparr>)),
                                  total_jobs := total_jobs sched + 1\<rparr>)))"

text \<open>
  \<open>mgpu_sched_wait_job\<close>.  \<open>complete\<close> counts \<open>done\<close> up and a successful wait
  counts it down again, both unless it is \<open>UINT_MAX\<close>.  \<open>wait_for_completion_timeout\<close>
  returns zero when the budget runs out and the jiffies that remain, at least one, when
  the completion is signaled in time.  \<open>completion\<close> is what another thread does to the
  job during the wait: \<open>Some (t, r)\<close> when \<open>mgpu_job_complete(job, r)\<close> runs \<open>t\<close>
  jiffies after the wait began, \<open>None\<close> when it does not run.  The return value of the
  wait is unsigned, so the branch \<open>ret < 0\<close> is never taken.  \<open>timeout_ms\<close> is an
  \<open>unsigned long\<close>, 64 bits wide, cut to 32 bits where it is passed to
  \<open>msecs_to_jiffies\<close>.
\<close>

definition complete :: "u32 \<Rightarrow> u32" where
  "complete d = (if d \<noteq> 0xFFFFFFFF then d + 1 else d)"

definition completion_taken :: "u32 \<Rightarrow> u32" where
  "completion_taken d = (if d \<noteq> 0xFFFFFFFF then d - 1 else d)"

definition job_completed_with :: "mgpu_job \<Rightarrow> status \<Rightarrow> mgpu_job" where
  "job_completed_with job r =
     job\<lparr>result := r, state := (if r = OK then MGPU_JOB_COMPLETED else MGPU_JOB_ABORTED),
         completion_done := complete (completion_done job)\<rparr>"

definition wait_for_completion_timeout ::
    "mgpu_job \<Rightarrow> nat \<Rightarrow> (nat \<times> status) option \<Rightarrow> nat \<times> mgpu_job" where
  "wait_for_completion_timeout job timeout completion =
     (if completion_done job \<noteq> 0
      then (max timeout 1, job\<lparr>completion_done := completion_taken (completion_done job)\<rparr>)
      else case completion of
             None \<Rightarrow> (0, job)
           | Some (t, r) \<Rightarrow>
               if t < timeout
               then (max (timeout - t) 1,
                     (job_completed_with job r)\<lparr>completion_done :=
                        completion_taken (completion_done (job_completed_with job r))\<rparr>)
               else (0, job))"

definition mgpu_sched_wait_job ::
    "nat \<Rightarrow> mgpu_job \<Rightarrow> u64 \<Rightarrow> (nat \<times> status) option \<Rightarrow> status \<times> mgpu_job" where
  "mgpu_sched_wait_job hz job tmo_ms completion =
     (let timeout = msecs_to_jiffies hz (ucast tmo_ms);
          (ret, job1) = wait_for_completion_timeout job timeout completion
      in if ret = 0 then (Inl ETIMEDOUT, job1\<lparr>state := MGPU_JOB_TIMEOUT\<rparr>)
         else (result job1, job1))"

text \<open>
  A job as \<open>mgpu_job_alloc\<close> leaves it, with a one-dword command buffer at \<open>0x8000\<close>,
  and a scheduler with the single queue 0 as \<open>mgpu_queue_create\<close> leaves it, holding
  that job at address 1.
\<close>

definition job_example :: mgpu_job where
  "job_example = \<lparr>job_id = 1, job_type = MGPU_JOB_TYPE_DRAW, priority = MGPU_PRIORITY_NORMAL,
     state = MGPU_JOB_PENDING, commands = 0x8000, cmd_size = 4, job_queue_id = 0,
     dep_count = 0, fence_addr = 0, fence_value = 0, start_time = 0, timeout_ms = 10000,
     completion_done = 0, result = OK\<rparr>"

definition queue_example :: mgpu_queue where
  "queue_example = \<lparr>q_queue_id = 0, queue_depth = 16, pending_starts = 0, busy = False,
     pending = (\<lambda>prio. []), current_job = None, jobs_submitted = 0, jobs_completed = 0\<rparr>"

definition sched_example :: mgpu_scheduler where
  "sched_example = \<lparr>queues = (\<lambda>q. if q = 0 then Some queue_example else None),
     num_queues = 1, jobs = (\<lambda>p. if p = 1 then Some job_example else None), total_jobs = 0\<rparr>"

section \<open>Command validator\<close>

text \<open>
  The command header, a bit-field struct in one dword: opcode in bits 0 to 7, size in
  dwords in bits 8 to 15, flags above.
\<close>

definition hdr_opcode :: "u32 \<Rightarrow> u32" where
  "hdr_opcode h = h AND 0xFF"

definition hdr_size :: "u32 \<Rightarrow> u32" where
  "hdr_size h = drop_bit 8 h AND 0xFF"

definition hdr_set_opcode :: "u32 \<Rightarrow> u32 \<Rightarrow> u32" where
  "hdr_set_opcode h op = (h AND NOT 0xFF) OR (op AND 0xFF)"

definition MGPU_CMD_NOP :: u32 where "MGPU_CMD_NOP = 0x00"
definition MGPU_CMD_DRAW :: u32 where "MGPU_CMD_DRAW = 0x01"
definition MGPU_CMD_COMPUTE :: u32 where "MGPU_CMD_COMPUTE = 0x02"
definition MGPU_CMD_DMA :: u32 where "MGPU_CMD_DMA = 0x03"
definition MGPU_CMD_WAIT :: u32 where "MGPU_CMD_WAIT = 0x05"
definition MGPU_CMD_REG_WRITE :: u32 where "MGPU_CMD_REG_WRITE = 0x06"
definition MGPU_CMD_REG_READ :: u32 where "MGPU_CMD_REG_READ = 0x07"

lemmas cmd_defs = MGPU_CMD_NOP_def MGPU_CMD_DRAW_def MGPU_CMD_COMPUTE_def MGPU_CMD_DMA_def
  MGPU_CMD_FENCE_def MGPU_CMD_WAIT_def MGPU_CMD_REG_WRITE_def MGPU_CMD_REG_READ_def

text \<open>
  \<open>struct mgpu_cmd_validator\<close>; the function pointer \<open>validate\<close> is one of the three
  validators of the file or \<open>NULL\<close>.
\<close>

datatype validate_fn = VALIDATE_DRAW | VALIDATE_DMA | VALIDATE_FENCE

record mgpu_cmd_validator =
  v_opcode :: u32
  min_size :: u32
  max_size :: u32
  privileged :: bool
  validate :: "validate_fn option"

definition cmd_validators :: "mgpu_cmd_validator list" where
  "cmd_validators =
     [\<lparr>v_opcode = MGPU_CMD_NOP, min_size = 1, max_size = 1, privileged = False, validate = None\<rparr>,
      \<lparr>v_opcode = MGPU_CMD_DRAW, min_size = 5, max_size = 8, privileged = False,
        validate = Some VALIDATE_DRAW\<rparr>,
      \<lparr>v_opcode = MGPU_CMD_COMPUTE, min_size = 4, max_size = 8, privileged = False, validate = None\<rparr>,
      \<lparr>v_opcode = MGPU_CMD_DMA, min_size = 4, max_size = 5, privileged = False,
        validate = Some VALIDATE_DMA\<rparr>,
      \<lparr>v_opcode = MGPU_CMD_FENCE, min_size = 3, max_size = 3, privileged = False,
        validate = Some VALIDATE_FENCE\<rparr>,
      \<lparr>v_opcode = MGPU_CMD_WAIT, min_size = 2, max_size = 3, privileged = False, validate = None\<rparr>,
      \<lparr>v_opcode = MGPU_CMD_REG_WRITE, min_size = 3, max_size = 3, privileged = True, validate = None\<rparr>,
      \<lparr>v_opcode = MGPU_CMD_REG_READ, min_size = 2, max_size = 3, privileged = True, validate = None\<rparr>]"

definition find_validator :: "u32 \<Rightarrow> mgpu_cmd_validator option" where
  "find_validator op = find (\<lambda>v. v_opcode v = op) cmd_validators"

text \<open>
  The three validators read the fields of the record through the command structs:
  dword 1 and 2 of a draw, dword 1, 2 and 3 of a DMA, dword 1 of a fence.  They are
  called after the size checks, so these dwords are inside the buffer.
\<close>

definition mgpu_validate_draw_cmd :: "mmio \<Rightarrow> u32 list \<Rightarrow> status \<times> mmio" where
  "mgpu_validate_draw_cmd m cmd =
     (if cmd ! 1 = 0 \<or> cmd ! 1 > 65536 then (Inl EINVAL, m)
      else if cmd ! 2 = 0 then (Inl EINVAL, m)
      else let (vb, m1) = mgpu_read m MGPU_REG_VERTEX_BASE
           in if vb = 0 then (Inl EINVAL, m1) else (OK, m1))"

definition mgpu_validate_dma_cmd :: "mmio \<Rightarrow> u32 list \<Rightarrow> status \<times> mmio" where
  "mgpu_validate_dma_cmd m cmd =
     (if cmd ! 3 = 0 \<or> cmd ! 3 > 16 * 1024 * 1024 then (Inl EINVAL, m)
      else if cmd ! 1 AND 3 \<noteq> 0 \<or> cmd ! 2 AND 3 \<noteq> 0 \<or> cmd ! 3 AND 3 \<noteq> 0 then (Inl EINVAL, m)
      else (OK, m))"

definition mgpu_validate_fence_cmd :: "mmio \<Rightarrow> u32 list \<Rightarrow> status \<times> mmio" where
  "mgpu_validate_fence_cmd m cmd = (if cmd ! 1 AND 3 \<noteq> 0 then (Inl EINVAL, m) else (OK, m))"

definition run_validate :: "validate_fn option \<Rightarrow> mmio \<Rightarrow> u32 list \<Rightarrow> status \<times> mmio" where
  "run_validate f m cmd =
     (case f of
        None \<Rightarrow> (OK, m)
      | Some VALIDATE_DRAW \<Rightarrow> mgpu_validate_draw_cmd m cmd
      | Some VALIDATE_DMA \<Rightarrow> mgpu_validate_dma_cmd m cmd
      | Some VALIDATE_FENCE \<Rightarrow> mgpu_validate_fence_cmd m cmd)"

text \<open>
  \<open>mgpu_validate_commands\<close>.  The buffer is the list of its \<open>size_bytes / 4\<close> dwords.
  The loop walks it with \<open>ptr\<close>: \<open>pre\<close> is the part before \<open>ptr\<close>, as the loop has
  left it (privileged opcodes rewritten), and the fourth argument is the part from
  \<open>ptr\<close> to \<open>end\<close>.  The result is the status, the buffer afterwards and the register
  window.
\<close>

function validate_loop :: "mmio \<Rightarrow> u32 list \<Rightarrow> u32 list \<Rightarrow> status \<times> u32 list \<times> mmio" where
  "validate_loop m pre [] = (OK, pre, m)"
| "validate_loop m pre (h # rest) =
     (case find_validator (hdr_opcode h) of
        None \<Rightarrow> (Inl EINVAL, pre @ h # rest, m)
      | Some v \<Rightarrow>
          if hdr_size h < min_size v \<or> hdr_size h > max_size v
          then (Inl EINVAL, pre @ h # rest, m)
          else if unat (hdr_size h) > length (h # rest)
          then (Inl EINVAL, pre @ h # rest, m)
          else if fst (run_validate (validate v) m (h # rest)) \<noteq> OK
          then (fst (run_validate (validate v) m (h # rest)), pre @ h # rest,
                snd (run_validate (validate v) m (h # rest)))
          else
            validate_loop (snd (run_validate (validate v) m (h # rest)))
              (pre @ take (unat (hdr_size h))
                        ((if privileged v then hdr_set_opcode h MGPU_CMD_NOP else h) # rest))
              (drop (unat (hdr_size h)) (h # rest)))"
  by pat_completeness auto
termination
proof (relation "measure (\<lambda>(m, pre, rest). length rest)")
  show "wf (measure (\<lambda>(m, pre, rest). length rest))"
    by simp
next
  fix m :: mmio and pre rest :: "u32 list" and h :: u32 and v :: mgpu_cmd_validator
  assume f: "find_validator (hdr_opcode h) = Some v"
    and s: "\<not> (hdr_size h < min_size v \<or> hdr_size h > max_size v)"
  have "v \<in> set cmd_validators"
    using f by (auto simp: find_validator_def find_Some_iff)
  then have "1 \<le> min_size v"
    by (auto simp: cmd_validators_def)
  with s have "1 \<le> hdr_size h"
    by auto
  then have "0 < unat (hdr_size h)"
    by (simp add: word_le_nat_alt)
  then show "((snd (run_validate (validate v) m (h # rest)),
               pre @ take (unat (hdr_size h))
                  ((if privileged v then hdr_set_opcode h MGPU_CMD_NOP else h) # rest),
               drop (unat (hdr_size h)) (h # rest)),
              m, pre, h # rest) \<in> measure (\<lambda>(m, pre, rest). length rest)"
    by simp
qed

definition mgpu_validate_commands :: "mmio \<Rightarrow> u32 list \<Rightarrow> status \<times> u32 list \<times> mmio" where
  "mgpu_validate_commands m cmds = validate_loop m [] cmds"

text \<open>
  The records of a stream, each running from its header for as many dwords as the
  header declares; a header that declares zero dwords or more than are left makes the
  rest of the stream the last record.
\<close>

function cmd_records :: "u32 list \<Rightarrow> u32 list list" where
  "cmd_records [] = []"
| "cmd_records (h # rest) =
     (if unat (hdr_size h) = 0 \<or> unat (hdr_size h) > length (h # rest) then [h # rest]
      else take (unat (hdr_size h)) (h # rest) # cmd_records (drop (unat (hdr_size h)) (h # rest)))"
  by pat_completeness auto
termination
  by (relation "measure length") auto

text \<open>
  The size bounds of the table of section 4.G of the specification, by opcode, written
  from the specification's table: NOP 1 to 1, DRAW 5 to 8, COMPUTE 4 to 8, DMA 4 to 5,
  FENCE 3 to 3, WAIT 2 to 3, REG_WRITE and REG_READ 3 to 3.
\<close>

definition spec_size_bounds :: "u32 \<Rightarrow> (u32 \<times> u32) option" where
  "spec_size_bounds op =
     (if op = MGPU_CMD_NOP then Some (1, 1)
      else if op = MGPU_CMD_DRAW then Some (5, 8)
      else if op = MGPU_CMD_COMPUTE then Some (4, 8)
      else if op = MGPU_CMD_DMA then Some (4, 5)
      else if op = MGPU_CMD_FENCE then Some (3, 3)
      else if op = MGPU_CMD_WAIT then Some (2, 3)
      else if op = MGPU_CMD_REG_WRITE \<or> op = MGPU_CMD_REG_READ then Some (3, 3)
      else None)"

text \<open>The bounds the validator applies: those of \<open>cmd_validators\<close>.\<close>

definition code_size_bounds :: "u32 \<Rightarrow> (u32 \<times> u32) option" where
  "code_size_bounds op = map_option (\<lambda>v. (min_size v, max_size v)) (find_validator op)"

text \<open>
  An initialised fence engine whose page is at DMA address \<open>0x1000\<close> and whose third
  cell (byte offset 8) holds 10.
\<close>

definition fence_device_example :: mgpu_device where
  "fence_device_example =
     probe_device\<lparr>fence_ctx := Some \<lparr>cpu_addr = (replicate 1024 0)[2 := 10],
       ctx_dma_addr = 0x1000, seqno = 0, wait_list = []\<rparr>\<rparr>"

text \<open>
  Two wake-ups of a waiter on \<open>fence_device_example\<close>, each after a long sleep, with
  no signal pending and the page unchanged.
\<close>

definition stalled_wakeups :: "wakeup list" where
  "stalled_wakeups =
     [\<lparr>sig_pending = False, page = (replicate 1024 0)[2 := 10], slept = 100000\<rparr>,
      \<lparr>sig_pending = False, page = (replicate 1024 0)[2 := 10], slept = 100000\<rparr>]"

text \<open>
  The ring after a successful submission of the copied commands \<open>cmds\<close>: the
  commands written at the old tail, the fence command after them when
  \<open>MGPU_SUBMIT_FLAGS_FENCE\<close> is set, and \<open>submitted_cmds\<close> incremented by the kick.
  \<open>submitted_dwords\<close> is the sequence of dwords such a submission hands to
  \<open>mgpu_ring_write\<close>, in the order of the calls.
\<close>

definition fence_cmd_of :: "mgpu_submit \<Rightarrow> u32 list" where
  "fence_cmd_of args = [MGPU_CMD_FENCE OR push_bit 8 3, ucast (s_fence_addr args), s_fence_value args]"

definition submitted_dwords :: "mgpu_submit \<Rightarrow> u32 list \<Rightarrow> u32 list" where
  "submitted_dwords args cmds =
     cmds @ (if s_flags args AND MGPU_SUBMIT_FLAGS_FENCE \<noteq> 0 then fence_cmd_of args else [])"

definition ring_after_submit :: "mgpu_ring \<Rightarrow> mgpu_submit \<Rightarrow> u32 list \<Rightarrow> mgpu_ring" where
  "ring_after_submit ring args cmds =
     (let r1 = mgpu_ring_write ring cmds;
          r2 = (if s_flags args AND MGPU_SUBMIT_FLAGS_FENCE \<noteq> 0 then mgpu_ring_write r1 (fence_cmd_of args) else r1)
      in r2\<lparr>submitted_cmds := submitted_cmds r2 + 1\<rparr>)"

text \<open>
  A ring of \<open>2 ^ k\<close> dwords as \<open>mgpu_ring_create\<close> makes it and \<open>mgpu_ring_write\<close>
  keeps it: the size a power of two, the buffer of that size, the tail inside it.
\<close>

definition ring_wf :: "mgpu_ring \<Rightarrow> nat \<Rightarrow> bool" where
  "ring_wf ring k =
     (k < 32 \<and> ring_size ring div 4 = 2 ^ k \<and> length (vaddr ring) = 2 ^ k
      \<and> unat (tail ring) < 2 ^ k)"

text \<open>
  A caller whose command buffer, the four bytes at \<open>0x8000\<close>, holds one NOP (header
  \<open>0x100\<close>: opcode 0, size 1) with nothing readable after it, a kernel whose
  allocations succeed, and the device after \<open>mgpu_cmdq_init\<close>.
\<close>

definition env_example :: kenv where
  "env_example = \<lparr>ring_alloc = Some 0x100000, kmalloc_ok = True,
                    user_mem = (\<lambda>a. if a = 0x8000 then Some 0x00
                                    else if a = 0x8001 then Some 0x01
                                    else if a = 0x8002 \<or> a = 0x8003 then Some 0x00
                                    else None)\<rparr>"

definition nop_submit :: "u32 \<Rightarrow> mgpu_submit" where
  "nop_submit q = \<lparr>s_commands = 0x8000, s_cmd_size = 4, s_queue_id = q, s_flags = 0,
                    s_fence_addr = 0, s_fence_value = 0\<rparr>"

definition cmdq_device_example :: mgpu_device where
  "cmdq_device_example = snd (mgpu_cmdq_init env_example probe_device)"

text \<open>
  The same scheduler with the job linked into the normal-priority bucket of queue 0
  while still in state \<open>MGPU_JOB_PENDING\<close>.
\<close>

definition sched_pending_example :: mgpu_scheduler where
  "sched_pending_example =
     sched_example\<lparr>queues := (queues sched_example)(0 := Some (queue_example\<lparr>pending :=
       (pending queue_example)(MGPU_PRIORITY_NORMAL := [1])\<rparr>))\<rparr>"

text \<open>
  A stream of three records: a NOP, a fence of three dwords and a register read of two.
\<close>

definition stream_example :: "u32 list" where
  "stream_example = [0x100, 0x304, 0x1000, 1, 0x207, 0]"

section \<open>Theorems\<close>

subsection \<open>Ring space accounting\<close>

lemma mgpu_ring_space_inline_formula:
  "fst (mgpu_ring_space_inline m ring) =
     (let h = rd m (nreads m) (MGPU_REG_CMD_HEAD + queue_id ring * 0x10) in
      if h \<le> tail ring then ring_size ring div 4 - (tail ring - h) - 1
      else h - tail ring - 1)"
  by (simp add: mgpu_ring_space_inline_def mgpu_read_def Let_def)

lemma and_1023_succ: "((a AND 1023) + 1) AND 1023 = (a + 1) AND (1023 :: u32)"
proof -
  have m: "(1023 :: u32) = mask 10"
    by (simp add: mask_eq_exp_minus_1)
  show ?thesis
    unfolding m by (rule mask_eqs)
qed

lemma write_nops_fields:
  "ring_size (write_nops n ring) = ring_size ring \<and> queue_id (write_nops n ring) = queue_id ring"
  by (induction n) (simp_all add: write_nops_def mgpu_ring_write_def)

lemma write_nops_tail:
  "ring_size ring = 4096 \<Longrightarrow> tail ring = 0 \<Longrightarrow> tail (write_nops n ring) = of_nat n AND 1023"
proof (induction n)
  case 0
  then show ?case by (simp add: write_nops_def)
next
  case (Suc n)
  have "tail (write_nops (Suc n) ring) = (tail (write_nops n ring) + 1) AND 1023"
    using write_nops_fields [of n ring] Suc.prems
    by (simp add: write_nops_def mgpu_ring_write_def)
  then show ?case
    using Suc and_1023_succ [of "of_nat n"] by (simp add: add.commute)
qed

text \<open>
  The \<open>static inline\<close> definition counts dwords: 1023 on the fresh 4096-byte ring,
  and 0 after 1023 one-dword commands with the device head still at zero.
\<close>

lemma mgpu_ring_space_inline_fresh:
  "map_option (\<lambda>r. fst (mgpu_ring_space_inline quiet_mmio r))
     (fst (mgpu_ring_create quiet_mmio (Some a) 4096 0)) = Some 1023"
  by (simp add: mgpu_ring_space_inline_def mgpu_read_def mgpu_ring_create_def Let_def
      quiet_mmio_def mgpu_write_def is_power_of_2_def reg_defs)

lemma mgpu_ring_space_inline_full:
  "map_option (\<lambda>r. fst (mgpu_ring_space_inline quiet_mmio (write_nops 1023 r)))
     (fst (mgpu_ring_create quiet_mmio (Some a) 4096 0)) = Some 0"
proof -
  let ?r = "\<lparr>vaddr = replicate 1024 0, dma_addr = a, ring_size = 4096,
             head = 0, tail = 0, queue_id = 0, submitted_cmds = 0, completed_cmds = 0\<rparr> :: mgpu_ring"
  have c: "fst (mgpu_ring_create quiet_mmio (Some a) 4096 0) = Some ?r"
    by (simp add: mgpu_ring_create_def Let_def is_power_of_2_def reg_defs)
  have t: "tail (write_nops 1023 ?r) = 1023"
    using write_nops_tail [of ?r 1023] by simp
  show ?thesis
    unfolding c using t write_nops_fields [of 1023 ?r]
    by (simp add: mgpu_ring_space_inline_def mgpu_read_def quiet_mmio_def Let_def)
qed

text \<open>
  C1.  The claim reads: \<open>space_dw()\<close> returns the free space in dwords, with \<open>head\<close> read
  from the device on each call: \<open>size/4 - (tail - head) - 1\<close> when \<open>head \<le> tail\<close>, so a
  freshly created, empty 4096-byte ring reports 1023 free dwords, and 0 after 1023
  one-dword commands.  The definition of \<open>mgpu_ring_space\<close> that the submission path
  calls subtracts from the size in bytes: with the device head at zero it reports 4095
  free dwords on the fresh ring, four times its capacity, and 3072 after 1023 one-dword
  commands.  The later \<open>static inline\<close> definition in the same file divides by four
  (lemmas \<open>mgpu_ring_space_inline_fresh\<close> and \<open>mgpu_ring_space_inline_full\<close>).
\<close>

theorem mgpu_ring_space_fresh_reports_bytes:
  "map_option (\<lambda>r. fst (mgpu_ring_space quiet_mmio r))
     (fst (mgpu_ring_create quiet_mmio (Some a) 4096 0)) = Some 4095
   \<and> map_option (\<lambda>r. fst (mgpu_ring_space quiet_mmio (write_nops 1023 r)))
     (fst (mgpu_ring_create quiet_mmio (Some a) 4096 0)) = Some 3072"
proof -
  let ?r = "\<lparr>vaddr = replicate 1024 0, dma_addr = a, ring_size = 4096,
             head = 0, tail = 0, queue_id = 0, submitted_cmds = 0, completed_cmds = 0\<rparr> :: mgpu_ring"
  have c: "fst (mgpu_ring_create quiet_mmio (Some a) 4096 0) = Some ?r"
    by (simp add: mgpu_ring_create_def Let_def is_power_of_2_def reg_defs)
  have t: "tail (write_nops 1023 ?r) = 1023"
    using write_nops_tail [of ?r 1023] by simp
  show ?thesis
    unfolding c using t write_nops_fields [of 1023 ?r]
    by (simp add: mgpu_ring_space_def mgpu_read_def quiet_mmio_def Let_def)
qed

subsection \<open>Fence engine\<close>

lemma fence_next_calls_seqno:
  "fence_ctx mdev = Some ctx \<Longrightarrow>
   \<exists>ctx'. fence_ctx (fence_next_calls n mdev) = Some ctx' \<and> seqno ctx' = seqno ctx + of_nat n"
  by (induction n) (auto simp: mgpu_fence_next_def Let_def)

lemma fence_next_calls_value:
  assumes "fence_ctx mdev = Some ctx"
  shows "fst (mgpu_fence_next (fence_next_calls n mdev)) = seqno ctx + of_nat n + 1"
  using fence_next_calls_seqno [OF assms, of n]
  by (auto simp: mgpu_fence_next_def Let_def)

lemma mgpu_fence_init_ctx:
  "fence_ctx (snd (mgpu_fence_init probe_device (Some a))) =
     Some \<lparr>cpu_addr = replicate 1024 0, ctx_dma_addr = a, seqno = 0, wait_list = []\<rparr>"
  by (simp add: mgpu_fence_init_def Let_def PAGE_SIZE_def)

lemma mgpu_fence_init_seqno:
  assumes "mgpu_fence_init mdev0 alloc = (OK, mdev)"
  shows "\<exists>ctx. fence_ctx mdev = Some ctx \<and> seqno ctx = 0"
  using assms by (auto simp: mgpu_fence_init_def Let_def split: option.splits)

text \<open>
  C6.  With the fence engine initialised and its page not wrapping around the end of the
  64-bit address space: for an address inside the page, \<open>mgpu_fence_signaled\<close> is true
  exactly when the cell holding that address has reached the expected value; for an
  address outside the page it is true.
\<close>

theorem mgpu_fence_signaled_iff_cell_reached:
  assumes "fence_ctx mdev = Some ctx" and "unat (ctx_dma_addr ctx) + 4096 < 2 ^ 64"
  shows "(unat (ctx_dma_addr ctx) \<le> unat addr \<and> unat addr < unat (ctx_dma_addr ctx) + 4096 \<longrightarrow>
           mgpu_fence_signaled mdev addr v =
             (v \<le> cpu_addr ctx ! ((unat addr - unat (ctx_dma_addr ctx)) div 4)))
       \<and> (\<not> (unat (ctx_dma_addr ctx) \<le> unat addr \<and> unat addr < unat (ctx_dma_addr ctx) + 4096) \<longrightarrow>
           mgpu_fence_signaled mdev addr v)"
proof -
  let ?d = "ctx_dma_addr ctx"
  have e: "unat (?d + PAGE_SIZE) = unat ?d + 4096"
    using assms(2) by (simp add: PAGE_SIZE_def unat_word_ariths)
  have lo: "(addr < ?d) = (unat addr < unat ?d)"
    by (simp add: word_less_nat_alt)
  have hi: "(?d + PAGE_SIZE \<le> addr) = (unat ?d + 4096 \<le> unat addr)"
    by (simp add: word_le_nat_alt e)
  have idx: "unat ((addr - ?d) div 4) = (unat addr - unat ?d) div 4" if "unat ?d \<le> unat addr"
    using that by (simp add: unat_div unat_sub word_le_nat_alt)
  show ?thesis
    using assms(1) lo hi idx by (auto simp: mgpu_fence_signaled_def Let_def)
qed

theorem mgpu_fence_signaled_iff_cell_reached_witness:
  "mgpu_fence_signaled fence_device_example 0x1008 5
   \<and> mgpu_fence_signaled fence_device_example 0x100B 10
   \<and> \<not> mgpu_fence_signaled fence_device_example 0x1008 11
   \<and> mgpu_fence_signaled fence_device_example 0x2000 11
   \<and> mgpu_fence_signaled fence_device_example 0xFFF 11"
proof -
  let ?ctx = "\<lparr>cpu_addr = (replicate 1024 0)[2 := 10], ctx_dma_addr = 0x1000,
               seqno = 0, wait_list = []\<rparr> :: mgpu_fence_context"
  have c: "fence_ctx fence_device_example = Some ?ctx"
    by (simp add: fence_device_example_def probe_device_def)
  have h: "unat (ctx_dma_addr ?ctx) + 4096 < 2 ^ 64"
    by simp
  note t = mgpu_fence_signaled_iff_cell_reached [OF c h]
  show ?thesis
    using t [of "0x1008" 5] t [of "0x100B" 10] t [of "0x1008" 11] t [of "0x2000" 11]
      t [of "0xFFF" 11]
    by simp
qed

text \<open>
  C7.  The claim reads: after initialisation every call of \<open>mgpu_fence_next\<close> returns a
  number strictly greater than the previous call's, and never zero, for every number of
  calls.  The counter is a 32-bit \<open>atomic_t\<close> that starts at zero and is incremented
  with no check: the call number \<open>2^32\<close> returns zero, which is not greater than the
  \<open>0xFFFFFFFF\<close> returned just before.
\<close>

theorem mgpu_fence_next_wraps_to_zero:
  "fst (mgpu_fence_next (fence_next_calls 4294967295
          (snd (mgpu_fence_init probe_device (Some 0x1000))))) = 0
   \<and> fst (mgpu_fence_next (fence_next_calls 4294967294
          (snd (mgpu_fence_init probe_device (Some 0x1000))))) = 0xFFFFFFFF"
  using fence_next_calls_value [OF mgpu_fence_init_ctx, where n = 4294967295 and a1 = "0x1000"]
    fence_next_calls_value [OF mgpu_fence_init_ctx, where n = 4294967294 and a1 = "0x1000"]
  by simp

text \<open>
  C7, as the code has it.  After a successful \<open>mgpu_fence_init\<close>, call number \<open>n + 1\<close>
  of \<open>mgpu_fence_next\<close> returns \<open>n + 1\<close> as long as \<open>n + 1 < 2^32\<close>: the value is not
  zero, and it is strictly greater than the value returned by the call before it.
\<close>

theorem mgpu_fence_next_increasing_before_wrap:
  assumes "mgpu_fence_init mdev0 alloc = (OK, mdev)" and "n < 4294967295"
  shows "fst (mgpu_fence_next (fence_next_calls n mdev)) = of_nat (Suc n)
     \<and> fst (mgpu_fence_next (fence_next_calls n mdev)) \<noteq> 0
     \<and> (0 < n \<longrightarrow> fst (mgpu_fence_next (fence_next_calls (n - 1) mdev))
                     < fst (mgpu_fence_next (fence_next_calls n mdev)))"
proof -
  obtain ctx where c: "fence_ctx mdev = Some ctx" "seqno ctx = 0"
    using mgpu_fence_init_seqno [OF assms(1)] by blast
  have v: "fst (mgpu_fence_next (fence_next_calls k mdev)) = (of_nat (Suc k) :: u32)" for k
    using fence_next_calls_value [OF c(1), of k] c(2) by simp
  have u: "unat (of_nat (Suc k) :: u32) = Suc k" if "k < 4294967295" for k
    using that by (simp add: unat_of_nat del: of_nat_Suc)
  have nz: "(of_nat (Suc n) :: u32) \<noteq> 0"
    using u [OF assms(2)] by (metis unat_0 nat.simps(3))
  have lt: "(of_nat (Suc (n - 1)) :: u32) < of_nat (Suc n)" if "0 < n"
    using that u [OF assms(2)] u [of "n - 1"] assms(2)
    by (simp add: word_less_nat_alt del: of_nat_Suc)
  show ?thesis
    using v nz lt by (simp del: of_nat_Suc)
qed

theorem mgpu_fence_next_increasing_before_wrap_witness:
  "fst (mgpu_fence_next (fence_next_calls 2 (snd (mgpu_fence_init probe_device (Some 0x1000))))) = 3
   \<and> fst (mgpu_fence_next (fence_next_calls 1 (snd (mgpu_fence_init probe_device (Some 0x1000)))))
       < fst (mgpu_fence_next (fence_next_calls 2 (snd (mgpu_fence_init probe_device (Some 0x1000)))))"
proof -
  have i: "mgpu_fence_init probe_device (Some 0x1000) =
             (OK, snd (mgpu_fence_init probe_device (Some 0x1000)))"
    by (simp add: mgpu_fence_init_def Let_def)
  have n: "(2::nat) < 4294967295"
    by simp
  show ?thesis
    using mgpu_fence_next_increasing_before_wrap [OF i n]
    by (auto simp del: fence_next_calls.simps)
qed

lemma wait_event_loop_forever:
  "wait_event_loop cond MAX_SCHEDULE_TIMEOUT ws \<noteq> Some (Inr 0)"
  by (induction ws) (auto simp: Let_def schedule_timeout_def MAX_SCHEDULE_TIMEOUT_def)

lemma wait_event_loop_forever_asleep:
  "\<forall>k \<in> set ws. \<not> sig_pending k \<and> \<not> cond (page k) \<Longrightarrow>
   wait_event_loop cond MAX_SCHEDULE_TIMEOUT ws = None"
  by (induction ws) (auto simp: Let_def schedule_timeout_def MAX_SCHEDULE_TIMEOUT_def)

lemma wait_event_loop_err:
  "wait_event_loop cond ret ws = Some (Inl e) \<Longrightarrow> e = ERESTARTSYS"
  by (induction ws arbitrary: ret) (auto simp: Let_def split: if_splits)

lemma wait_event_err:
  "wait_event_interruptible_timeout cond p t ws = Some (Inl e) \<Longrightarrow> e = ERESTARTSYS"
  by (auto simp: wait_event_interruptible_timeout_def Let_def split: if_splits
      dest: wait_event_loop_err)

text \<open>
  With a budget of 50 ms at \<open>HZ = 1000\<close> the stalled waiter times out at its first
  wake-up: the model does produce \<open>ETIMEDOUT\<close> for a finite budget.
\<close>

lemma mgpu_wait_fence_finite_budget_times_out:
  "fst (mgpu_wait_fence 1000 7 stalled_wakeups fence_device_example
          \<lparr>wf_fence_addr = 0x1008, wf_fence_value = 11, wf_timeout_ms = 50\<rparr>)
     = Some (Inl ETIMEDOUT)"
  by (simp add: mgpu_wait_fence_def fence_device_example_def probe_device_def
      mgpu_fence_signaled_def PAGE_SIZE_def Let_def set_fence_page_def stalled_wakeups_def
      wait_event_interruptible_timeout_def msecs_to_jiffies_def schedule_timeout_def
      MAX_SCHEDULE_TIMEOUT_def)

text \<open>
  C8.  With the fence engine initialised: when the fence is already signaled,
  \<open>mgpu_wait_fence\<close> returns success at once, whatever the wake-ups, and the device,
  its wait list included, is as before the call.  When the fence is not signaled and
  \<open>timeout_ms\<close> is zero, the call never returns \<open>ETIMEDOUT\<close>, and as long as no
  wake-up finds the fence signaled or a signal pending it has not returned: the caller
  is asleep with its entry on the wait list.
\<close>

theorem mgpu_wait_fence_fast_path_and_zero_timeout:
  assumes "fence_ctx mdev = Some ctx"
  shows "(mgpu_fence_signaled mdev (wf_fence_addr args) (wf_fence_value args) \<longrightarrow>
            mgpu_wait_fence hz w ws mdev args = (Some OK, mdev))
     \<and> (\<not> mgpu_fence_signaled mdev (wf_fence_addr args) (wf_fence_value args)
          \<and> wf_timeout_ms args = 0 \<longrightarrow>
            fst (mgpu_wait_fence hz w ws mdev args) \<noteq> Some (Inl ETIMEDOUT)
          \<and> ((\<forall>k \<in> set ws. \<not> sig_pending k \<and>
                 \<not> mgpu_fence_signaled (set_fence_page mdev (page k))
                     (wf_fence_addr args) (wf_fence_value args)) \<longrightarrow>
               mgpu_wait_fence hz w ws mdev args =
                 (None, mdev\<lparr>fence_ctx := Some (ctx\<lparr>wait_list := wait_list ctx @
                    [\<lparr>waiter = w, wait_value = wf_fence_value args, signaled = False\<rparr>]\<rparr>)\<rparr>)))"
proof -
  let ?c = "\<lambda>pg. mgpu_fence_signaled (set_fence_page mdev pg)
                   (wf_fence_addr args) (wf_fence_value args)"
  have p0: "set_fence_page mdev (cpu_addr ctx) = mdev"
    using assms by (simp add: set_fence_page_def)
  have a: "wait_event_interruptible_timeout ?c (cpu_addr ctx) MAX_SCHEDULE_TIMEOUT ws
             \<noteq> Some (Inr 0)"
    using wait_event_loop_forever [of ?c ws]
    by (auto simp: wait_event_interruptible_timeout_def Let_def MAX_SCHEDULE_TIMEOUT_def)
  have b: "wait_event_interruptible_timeout ?c (cpu_addr ctx) MAX_SCHEDULE_TIMEOUT ws = None"
    if "\<not> ?c (cpu_addr ctx)" "\<forall>k \<in> set ws. \<not> sig_pending k \<and> \<not> ?c (page k)"
    using that wait_event_loop_forever_asleep [of ws ?c]
    by (auto simp: wait_event_interruptible_timeout_def Let_def MAX_SCHEDULE_TIMEOUT_def)
  show ?thesis
    using assms a b p0 wait_event_err [of ?c "cpu_addr ctx" MAX_SCHEDULE_TIMEOUT ws]
    by (auto simp: mgpu_wait_fence_def Let_def split: option.splits sum.splits)
qed

theorem mgpu_wait_fence_fast_path_and_zero_timeout_witness:
  "mgpu_wait_fence 1000 7 stalled_wakeups fence_device_example
       \<lparr>wf_fence_addr = 0x1008, wf_fence_value = 5, wf_timeout_ms = 0\<rparr>
     = (Some OK, fence_device_example)
   \<and> fst (mgpu_wait_fence 1000 7 stalled_wakeups fence_device_example
            \<lparr>wf_fence_addr = 0x1008, wf_fence_value = 11, wf_timeout_ms = 0\<rparr>) = None"
proof -
  let ?ctx = "\<lparr>cpu_addr = (replicate 1024 0)[2 := 10], ctx_dma_addr = 0x1000,
               seqno = 0, wait_list = []\<rparr> :: mgpu_fence_context"
  have c: "fence_ctx fence_device_example = Some ?ctx"
    by (simp add: fence_device_example_def probe_device_def)
  note t = mgpu_wait_fence_fast_path_and_zero_timeout [OF c, of _ 1000 7 stalled_wakeups]
  show ?thesis
    using t [of "\<lparr>wf_fence_addr = 0x1008, wf_fence_value = 5, wf_timeout_ms = 0\<rparr>"]
      t [of "\<lparr>wf_fence_addr = 0x1008, wf_fence_value = 11, wf_timeout_ms = 0\<rparr>"]
    by (simp add: fence_device_example_def probe_device_def mgpu_fence_signaled_def
        PAGE_SIZE_def set_fence_page_def stalled_wakeups_def)
qed

subsection \<open>Command submission\<close>

lemma mgpu_ring_space_wlog: "wlog (snd (mgpu_ring_space m ring)) = wlog m"
  by (simp add: mgpu_ring_space_def mgpu_read_def Let_def)

lemma ring_wait_space_loop_wlog:
  "wlog (snd (ring_wait_space_loop t m ring needed)) = wlog m"
proof (induction t m ring needed rule: ring_wait_space_loop.induct)
  case (1 timeout m ring needed)
  then show ?case
    by (subst ring_wait_space_loop.simps) (simp add: mgpu_ring_space_wlog)
qed

lemma mgpu_ring_wait_space_wlog: "wlog (snd (mgpu_ring_wait_space m ring needed)) = wlog m"
  by (simp add: mgpu_ring_wait_space_def ring_wait_space_loop_wlog)

lemma sync_wait_loop_wlog: "wlog (snd (sync_wait_loop t m qid)) = wlog m"
proof (induction t m qid rule: sync_wait_loop.induct)
  case (1 timeout m qid)
  then show ?case
    by (subst sync_wait_loop.simps) (simp add: mgpu_read_def Let_def)
qed

lemma mgpu_ring_write_fields:
  "queue_id (mgpu_ring_write ring data) = queue_id ring"
  "dma_addr (mgpu_ring_write ring data) = dma_addr ring"
  "ring_size (mgpu_ring_write ring data) = ring_size ring"
  "submitted_cmds (mgpu_ring_write ring data) = submitted_cmds ring"
  by (simp_all add: mgpu_ring_write_def split: prod.splits)

lemma submit_finish_ok:
  assumes "submit_finish mdev ring args = (OK, mdev')"
  shows "cmd_ring mdev' = Some (ring\<lparr>submitted_cmds := submitted_cmds ring + 1\<rparr>)
       \<and> wlog (regs mdev') = wlog (regs mdev) @
            [(MGPU_REG_CMD_TAIL + queue_id ring * 0x10, tail ring), (MGPU_REG_DOORBELL (queue_id ring), 1)]"
  using assms sync_wait_loop_wlog [of 1000 "fst (mgpu_ring_kick (regs mdev) ring)" "queue_id ring"]
  by (auto simp: submit_finish_def mgpu_ring_kick_def mgpu_write_def Let_def split: prod.splits if_splits)

lemma submit_to_ring_ok:
  assumes "submit_to_ring mdev ring args cmds = (OK, mdev')"
  shows "cmd_ring mdev' = Some (ring_after_submit ring args cmds)
       \<and> wlog (regs mdev') = wlog (regs mdev) @
            [(MGPU_REG_CMD_TAIL + queue_id ring * 0x10, tail (ring_after_submit ring args cmds)),
             (MGPU_REG_DOORBELL (queue_id ring), 1)]"
proof (cases "s_flags args AND MGPU_SUBMIT_FLAGS_FENCE \<noteq> 0")
  case True
  obtain ret m1 where w1: "mgpu_ring_wait_space (regs mdev) ring (s_cmd_size args div 4) = (ret, m1)"
    by (cases "mgpu_ring_wait_space (regs mdev) ring (s_cmd_size args div 4)")
  obtain ret2 m2 where w2: "mgpu_ring_wait_space m1 (mgpu_ring_write ring cmds) 3 = (ret2, m2)"
    by (cases "mgpu_ring_wait_space m1 (mgpu_ring_write ring cmds) 3")
  have l1: "wlog m1 = wlog (regs mdev)"
    using mgpu_ring_wait_space_wlog [of "regs mdev" ring "s_cmd_size args div 4"] w1 by simp
  have l2: "wlog m2 = wlog m1"
    using mgpu_ring_wait_space_wlog [of m1 "mgpu_ring_write ring cmds" 3] w2 by simp
  have f: "submit_finish (mdev\<lparr>regs := m1, cmd_ring := Some (mgpu_ring_write ring cmds)\<rparr>\<lparr>regs := m2\<rparr>)
             (mgpu_ring_write (mgpu_ring_write ring cmds) (fence_cmd_of args)) args = (OK, mdev')"
    using assms True w1 w2
    by (simp add: submit_to_ring_def Let_def fence_cmd_of_def split: if_splits)
  show ?thesis
    using submit_finish_ok [OF f] True l1 l2
    by (simp add: ring_after_submit_def Let_def mgpu_ring_write_fields)
next
  case False
  obtain ret m1 where w1: "mgpu_ring_wait_space (regs mdev) ring (s_cmd_size args div 4) = (ret, m1)"
    by (cases "mgpu_ring_wait_space (regs mdev) ring (s_cmd_size args div 4)")
  have l1: "wlog m1 = wlog (regs mdev)"
    using mgpu_ring_wait_space_wlog [of "regs mdev" ring "s_cmd_size args div 4"] w1 by simp
  have f: "submit_finish (mdev\<lparr>regs := m1, cmd_ring := Some (mgpu_ring_write ring cmds)\<rparr>)
             (mgpu_ring_write ring cmds) args = (OK, mdev')"
    using assms False w1
    by (simp add: submit_to_ring_def Let_def split: if_splits)
  show ?thesis
    using submit_finish_ok [OF f] False l1
    by (simp add: ring_after_submit_def Let_def mgpu_ring_write_fields)
qed

lemma submit_copy_and_write_queue_id:
  "submit_copy_and_write env mdev ring (args\<lparr>s_queue_id := q\<rparr>) = submit_copy_and_write env mdev ring args"
  by (simp add: submit_copy_and_write_def submit_to_ring_def submit_finish_def Let_def
      split: option.splits prod.splits)

lemma mgpu_ring_create_min:
  "mgpu_ring_create m alloc MGPU_RING_SIZE_MIN q =
     (case alloc of None \<Rightarrow> (None, m)
      | Some a \<Rightarrow> (Some \<lparr>vaddr = replicate 1024 0, dma_addr = a, ring_size = 4096,
                         head = 0, tail = 0, queue_id = q, submitted_cmds = 0, completed_cmds = 0\<rparr>,
                   m\<lparr>wlog := wlog m @ [(MGPU_REG_CMD_BASE + q * 0x10, ucast a),
                       (MGPU_REG_CMD_SIZE + q * 0x10, 4096), (MGPU_REG_CMD_HEAD + q * 0x10, 0),
                       (MGPU_REG_CMD_TAIL + q * 0x10, 0)]\<rparr>))"
  by (simp add: mgpu_ring_create_def MGPU_RING_SIZE_MIN_def MGPU_RING_SIZE_MAX_def
      is_power_of_2_def Let_def mgpu_write_def split: option.splits)

text \<open>The copy: all \<open>n\<close> bytes or a fault, and one dword for every four bytes.\<close>

lemma copy_from_user_length:
  "copy_from_user um ptr n = Some bytes \<Longrightarrow> length bytes = n"
  by (auto simp: copy_from_user_def Let_def split: if_splits)

lemma dwords_of_bytes_length: "length (dwords_of_bytes bs) = length bs div 4"
  by (induction bs rule: dwords_of_bytes.induct) simp_all

text \<open>
  What \<open>mgpu_ring_write\<close> leaves in the buffer of a ring of \<open>2 ^ k\<close> dwords: the tail
  advances by the number of dwords modulo the size, dword \<open>i\<close> of the payload is in
  the cell \<open>i\<close> places after the old tail unless a later dword of the same payload has
  wrapped around onto it, and the cells the payload does not reach are as before.
\<close>

lemma nat_add_mod_neq:
  fixes a c n :: nat
  assumes "a < n" and "0 < c" and "c < n"
  shows "(a + c) mod n \<noteq> a"
proof (cases "a + c < n")
  case True
  then show ?thesis using assms by simp
next
  case False
  then have "(a + c) mod n = a + c - n"
    using assms by (simp add: mod_if)
  then show ?thesis using assms False by simp
qed

lemma tail_step_unat:
  assumes "k < 32"
  shows "unat ((t + 1) AND (2 ^ k - 1 :: u32)) = (unat t + 1) mod 2 ^ k"
proof -
  have m: "(2 ^ k - 1 :: u32) = mask k"
    by (simp add: mask_eq_exp_minus_1)
  have "unat ((t + 1) AND mask k) = take_bit k (unat (t + 1))"
    by (simp add: take_bit_eq_mask [symmetric] unsigned_take_bit_eq)
  also have "\<dots> = unat (t + 1) mod 2 ^ k"
    by (rule take_bit_eq_mod)
  also have "\<dots> = ((unat t + 1) mod 2 ^ 32) mod 2 ^ k"
    by (simp add: unat_word_ariths)
  also have "\<dots> = (unat t + 1) mod 2 ^ k"
  proof -
    have "(2 :: nat) ^ k dvd 2 ^ 32"
      using assms by (intro le_imp_power_dvd) simp
    then show ?thesis
      by (rule mod_mod_cancel)
  qed
  finally show ?thesis
    unfolding m .
qed

lemma ring_write_loop_length:
  "length (fst (ring_write_loop sz buf t ds)) = length buf"
  by (induction ds arbitrary: buf t) simp_all

lemma ring_write_loop_append:
  "ring_write_loop sz buf t (xs @ ys) =
     ring_write_loop sz (fst (ring_write_loop sz buf t xs)) (snd (ring_write_loop sz buf t xs)) ys"
  by (induction xs arbitrary: buf t) simp_all

lemma ring_write_loop_tail:
  assumes "k < 32" and "unat t < 2 ^ k"
  shows "unat (snd (ring_write_loop (2 ^ k) buf t ds)) = (unat t + length ds) mod 2 ^ k"
  using assms(2)
proof (induction ds arbitrary: buf t)
  case Nil
  then show ?case by simp
next
  case (Cons d ds)
  let ?t1 = "(t + 1) AND (2 ^ k - 1 :: u32)"
  have t1: "unat ?t1 = (unat t + 1) mod 2 ^ k"
    by (rule tail_step_unat [OF assms(1)])
  then have lt: "unat ?t1 < 2 ^ k"
    by simp
  have "unat (snd (ring_write_loop (2 ^ k) (buf[unat t := d]) ?t1 ds))
          = ((unat t + 1) mod 2 ^ k + length ds) mod 2 ^ k"
    using Cons.IH [OF lt] t1 by simp
  also have "\<dots> = (unat t + 1 + length ds) mod 2 ^ k"
    by (rule mod_add_left_eq)
  finally show ?case
    by simp
qed

lemma ring_write_loop_frame:
  assumes "k < 32" and "unat t < 2 ^ k"
    and "\<forall>j < length ds. p \<noteq> (unat t + j) mod 2 ^ k"
  shows "fst (ring_write_loop (2 ^ k) buf t ds) ! p = buf ! p"
  using assms(2,3)
proof (induction ds arbitrary: buf t)
  case Nil
  then show ?case by simp
next
  case (Cons d ds)
  let ?t1 = "(t + 1) AND (2 ^ k - 1 :: u32)"
  have t1: "unat ?t1 = (unat t + 1) mod 2 ^ k"
    by (rule tail_step_unat [OF assms(1)])
  then have lt: "unat ?t1 < 2 ^ k"
    by simp
  have far: "\<forall>j < length ds. p \<noteq> (unat ?t1 + j) mod 2 ^ k"
  proof (intro allI impI)
    fix j assume j: "j < length ds"
    have "(unat ?t1 + j) mod 2 ^ k = (unat t + Suc j) mod 2 ^ k"
      unfolding t1 by (simp add: mod_add_left_eq)
    moreover have "p \<noteq> (unat t + Suc j) mod 2 ^ k"
      using Cons.prems(2) j by auto
    ultimately show "p \<noteq> (unat ?t1 + j) mod 2 ^ k"
      by simp
  qed
  have "p \<noteq> (unat t + 0) mod 2 ^ k"
    using Cons.prems(2) by (metis length_greater_0_conv list.distinct(1))
  then have ne: "p \<noteq> unat t"
    using Cons.prems(1) by simp
  have "fst (ring_write_loop (2 ^ k) (buf[unat t := d]) ?t1 ds) ! p = (buf[unat t := d]) ! p"
    by (rule Cons.IH [OF lt far])
  then show ?case
    using ne by simp
qed

lemma ring_write_loop_content:
  assumes "k < 32" and "unat t < 2 ^ k" and "length buf = 2 ^ k"
    and "i < length ds" and "length ds - i \<le> 2 ^ k"
  shows "fst (ring_write_loop (2 ^ k) buf t ds) ! ((unat t + i) mod 2 ^ k) = ds ! i"
  using assms(2-5)
proof (induction ds arbitrary: buf t i)
  case Nil
  then show ?case by simp
next
  case (Cons d ds)
  let ?t1 = "(t + 1) AND (2 ^ k - 1 :: u32)"
  have t1: "unat ?t1 = (unat t + 1) mod 2 ^ k"
    by (rule tail_step_unat [OF assms(1)])
  then have lt: "unat ?t1 < 2 ^ k"
    by simp
  have len: "length (buf[unat t := d]) = 2 ^ k"
    using Cons.prems(2) by simp
  show ?case
  proof (cases i)
    case 0
    have far: "\<forall>j < length ds. unat t \<noteq> (unat ?t1 + j) mod 2 ^ k"
    proof (intro allI impI)
      fix j assume j: "j < length ds"
      have c: "0 < Suc j" "Suc j < 2 ^ k"
        using Cons.prems(4) 0 j by simp_all
      have "(unat ?t1 + j) mod 2 ^ k = (unat t + Suc j) mod 2 ^ k"
        unfolding t1 by (simp add: mod_add_left_eq)
      then show "unat t \<noteq> (unat ?t1 + j) mod 2 ^ k"
        using nat_add_mod_neq [OF Cons.prems(1) c] by simp
    qed
    have "fst (ring_write_loop (2 ^ k) (buf[unat t := d]) ?t1 ds) ! unat t = (buf[unat t := d]) ! unat t"
      by (rule ring_write_loop_frame [OF assms(1) lt far])
    then show ?thesis
      using 0 Cons.prems(1,2) by simp
  next
    case (Suc i')
    have i': "i' < length ds" "length ds - i' \<le> 2 ^ k"
      using Cons.prems(3,4) Suc by simp_all
    have "fst (ring_write_loop (2 ^ k) (buf[unat t := d]) ?t1 ds) ! ((unat ?t1 + i') mod 2 ^ k) = ds ! i'"
      by (rule Cons.IH [OF lt len i'])
    moreover have "(unat ?t1 + i') mod 2 ^ k = (unat t + Suc i') mod 2 ^ k"
      unfolding t1 by (simp add: mod_add_left_eq)
    ultimately show ?thesis
      using Suc by simp
  qed
qed

lemma mgpu_ring_write_append:
  "mgpu_ring_write (mgpu_ring_write ring xs) ys = mgpu_ring_write ring (xs @ ys)"
  by (simp add: mgpu_ring_write_def ring_write_loop_append split: prod.splits)

lemma ring_after_submit_eq:
  "ring_after_submit ring args cmds =
     (mgpu_ring_write ring (submitted_dwords args cmds))\<lparr>submitted_cmds := submitted_cmds ring + 1\<rparr>"
  by (simp add: ring_after_submit_def submitted_dwords_def Let_def mgpu_ring_write_append
      mgpu_ring_write_fields)

lemma mgpu_ring_write_wf:
  assumes "ring_wf ring k"
  shows "ring_wf (mgpu_ring_write ring ds) k"
    and "unat (tail (mgpu_ring_write ring ds)) = (unat (tail ring) + length ds) mod 2 ^ k"
    and "i < length ds \<Longrightarrow> length ds - i \<le> 2 ^ k \<Longrightarrow>
           vaddr (mgpu_ring_write ring ds) ! ((unat (tail ring) + i) mod 2 ^ k) = ds ! i"
proof -
  have k: "k < 32" and sz: "ring_size ring div 4 = 2 ^ k" and len: "length (vaddr ring) = 2 ^ k"
    and tl: "unat (tail ring) < 2 ^ k"
    using assms by (simp_all add: ring_wf_def)
  have v: "vaddr (mgpu_ring_write ring ds) = fst (ring_write_loop (2 ^ k) (vaddr ring) (tail ring) ds)"
    and t: "tail (mgpu_ring_write ring ds) = snd (ring_write_loop (2 ^ k) (vaddr ring) (tail ring) ds)"
    by (simp_all add: mgpu_ring_write_def sz split: prod.splits)
  show 2: "unat (tail (mgpu_ring_write ring ds)) = (unat (tail ring) + length ds) mod 2 ^ k"
    unfolding t by (rule ring_write_loop_tail [OF k tl])
  show "ring_wf (mgpu_ring_write ring ds) k"
    using k sz len 2 by (simp add: ring_wf_def v ring_write_loop_length mgpu_ring_write_fields)
  show "vaddr (mgpu_ring_write ring ds) ! ((unat (tail ring) + i) mod 2 ^ k) = ds ! i"
    if "i < length ds" "length ds - i \<le> 2 ^ k"
    unfolding v by (rule ring_write_loop_content [OF k tl len that])
qed

lemma ring_after_submit_wf:
  assumes "ring_wf ring k"
  shows "ring_wf (ring_after_submit ring args cmds) k
     \<and> unat (tail (ring_after_submit ring args cmds))
         = (unat (tail ring) + length (submitted_dwords args cmds)) mod 2 ^ k
     \<and> (\<forall>i < length (submitted_dwords args cmds).
           length (submitted_dwords args cmds) - i \<le> 2 ^ k \<longrightarrow>
           vaddr (ring_after_submit ring args cmds) ! ((unat (tail ring) + i) mod 2 ^ k)
             = submitted_dwords args cmds ! i)"
  using mgpu_ring_write_wf [OF assms, where ds = "submitted_dwords args cmds"]
  by (simp add: ring_after_submit_eq ring_wf_def)

text \<open>
  Whatever the outcome of a submission, the ring that was cached stays cached: same
  queue, same buffer, and still well formed.
\<close>

lemma submit_finish_ring:
  "\<exists>ring'. cmd_ring (snd (submit_finish mdev ring args)) = Some ring'
      \<and> queue_id ring' = queue_id ring \<and> dma_addr ring' = dma_addr ring
      \<and> (ring_wf ring k \<longrightarrow> ring_wf ring' k)"
  by (simp add: submit_finish_def mgpu_ring_kick_def Let_def ring_wf_def split: prod.splits)

lemma submit_to_ring_ring:
  assumes "cmd_ring mdev = Some ring"
  shows "\<exists>ring'. cmd_ring (snd (submit_to_ring mdev ring args cmds)) = Some ring'
      \<and> queue_id ring' = queue_id ring \<and> dma_addr ring' = dma_addr ring
      \<and> (ring_wf ring k \<longrightarrow> ring_wf ring' k)"
proof -
  have a: "\<exists>ring'. cmd_ring (snd (submit_finish d r args)) = Some ring'
      \<and> queue_id ring' = queue_id ring \<and> dma_addr ring' = dma_addr ring
      \<and> (ring_wf ring k \<longrightarrow> ring_wf ring' k)"
    if "queue_id r = queue_id ring" "dma_addr r = dma_addr ring" "ring_wf ring k \<longrightarrow> ring_wf r k" for d r
    using submit_finish_ring [of d r args k] that by auto
  have w1: "ring_wf ring k \<longrightarrow> ring_wf (mgpu_ring_write ring cmds) k"
    using mgpu_ring_write_wf(1) by blast
  have w2: "ring_wf ring k \<longrightarrow> ring_wf (mgpu_ring_write (mgpu_ring_write ring cmds) fc) k" for fc
    using mgpu_ring_write_wf(1) by blast
  show ?thesis
    using assms a [of "mgpu_ring_write ring cmds", OF _ _ w1]
      a [of "mgpu_ring_write (mgpu_ring_write ring cmds) fc" for fc, OF _ _ w2] w1
    by (simp add: submit_to_ring_def Let_def mgpu_ring_write_fields split: prod.splits)
qed

lemma submit_copy_and_write_ring:
  assumes "cmd_ring mdev = Some ring"
  shows "\<exists>ring'. cmd_ring (snd (submit_copy_and_write env mdev ring args)) = Some ring'
      \<and> queue_id ring' = queue_id ring \<and> dma_addr ring' = dma_addr ring
      \<and> (ring_wf ring k \<longrightarrow> ring_wf ring' k)"
  using assms submit_to_ring_ring [OF assms, of args]
  by (simp add: submit_copy_and_write_def split: option.splits)

text \<open>
  C10.  For a submission with a valid queue id.  When a ring is cached in
  \<open>mdev->cmd_ring\<close>, the result does not depend on the queue id of the arguments.  A
  successful submission has copied all \<open>cmd_size\<close> bytes from the caller and leaves
  that same ring cached (same queue id, same buffer); if the ring has \<open>2 ^ k\<close> dwords,
  the dwords of the submission, the \<open>cmd_size / 4\<close> copied ones and then the fence
  command if one was asked for, are in its buffer from the old tail on, each in its cell
  (all of them when they are at most \<open>2 ^ k\<close>, and otherwise the last \<open>2 ^ k\<close>, the
  earlier ones having been overwritten by the wrap), and the tail has advanced by their
  number.  Its last two register writes are the tail of that ring to \<open>CMD_TAIL\<close> of the
  ring's own queue and the doorbell of the ring's own queue.  Whatever the outcome, the
  ring that was cached is the ring cached afterwards, and it is still well formed.
  When no ring is cached, the ring is created for the queue id of the arguments, with
  \<open>2 ^ 10\<close> dwords, and cached, whatever happens afterwards; if its allocation fails
  the call returns \<open>ENOMEM\<close> and nothing is cached.  \<open>mgpu_cmdq_init\<close> caches such a
  ring for queue 0.
\<close>

theorem mgpu_submit_commands_single_cached_ring:
  assumes "s_queue_id args < MGPU_MAX_QUEUES"
  shows "(cmd_ring mdev = Some ring \<longrightarrow>
            (\<forall>q. q < MGPU_MAX_QUEUES \<longrightarrow>
               mgpu_submit_commands env mdev (args\<lparr>s_queue_id := q\<rparr>) = mgpu_submit_commands env mdev args)
          \<and> (\<forall>mdev'. mgpu_submit_commands env mdev args = (OK, mdev') \<longrightarrow>
               (\<exists>bytes cmds.
                  copy_from_user (user_mem env) (s_commands args) (unat (s_cmd_size args)) = Some bytes
                  \<and> cmds = take (unat (s_cmd_size args div 4)) (dwords_of_bytes bytes)
                  \<and> length cmds = unat (s_cmd_size args div 4)
                  \<and> cmd_ring mdev' = Some (ring_after_submit ring args cmds)
                  \<and> queue_id (ring_after_submit ring args cmds) = queue_id ring
                  \<and> dma_addr (ring_after_submit ring args cmds) = dma_addr ring
                  \<and> (ring_wf ring k \<longrightarrow>
                       ring_wf (ring_after_submit ring args cmds) k
                       \<and> unat (tail (ring_after_submit ring args cmds))
                           = (unat (tail ring) + length (submitted_dwords args cmds)) mod 2 ^ k
                       \<and> (\<forall>i < length (submitted_dwords args cmds).
                             length (submitted_dwords args cmds) - i \<le> 2 ^ k \<longrightarrow>
                             vaddr (ring_after_submit ring args cmds) ! ((unat (tail ring) + i) mod 2 ^ k)
                               = submitted_dwords args cmds ! i))
                  \<and> wlog (regs mdev') = wlog (regs mdev) @
                       [(MGPU_REG_CMD_TAIL + queue_id ring * 0x10, tail (ring_after_submit ring args cmds)),
                        (MGPU_REG_DOORBELL (queue_id ring), 1)]))
          \<and> (\<exists>ring'. cmd_ring (snd (mgpu_submit_commands env mdev args)) = Some ring'
                \<and> queue_id ring' = queue_id ring \<and> dma_addr ring' = dma_addr ring
                \<and> (ring_wf ring k \<longrightarrow> ring_wf ring' k)))
     \<and> (cmd_ring mdev = None \<and> s_commands args \<noteq> 0 \<and> s_cmd_size args \<noteq> 0 \<longrightarrow>
          (case ring_alloc env of
             None \<Rightarrow> fst (mgpu_submit_commands env mdev args) = Inl ENOMEM
                      \<and> cmd_ring (snd (mgpu_submit_commands env mdev args)) = None
           | Some a \<Rightarrow> \<exists>ring'. cmd_ring (snd (mgpu_submit_commands env mdev args)) = Some ring'
                      \<and> queue_id ring' = s_queue_id args \<and> dma_addr ring' = a \<and> ring_wf ring' 10))
     \<and> (case ring_alloc env of
           None \<Rightarrow> cmd_ring (snd (mgpu_cmdq_init env mdev)) = None
         | Some a \<Rightarrow> \<exists>ring'. cmd_ring (snd (mgpu_cmdq_init env mdev)) = Some ring'
                      \<and> queue_id ring' = 0 \<and> dma_addr ring' = a \<and> ring_wf ring' 10)"
proof -
  have g: "\<not> MGPU_MAX_QUEUES \<le> s_queue_id args"
    using assms by simp
  have indep: "mgpu_submit_commands env mdev (args\<lparr>s_queue_id := q\<rparr>) = mgpu_submit_commands env mdev args"
    if r: "cmd_ring mdev = Some ring" and q: "q < MGPU_MAX_QUEUES" for q
  proof -
    have "\<not> MGPU_MAX_QUEUES \<le> q"
      using q by simp
    then show ?thesis
      using r g by (simp add: mgpu_submit_commands_def submit_copy_and_write_queue_id)
  qed
  have ok: "\<exists>bytes cmds.
              copy_from_user (user_mem env) (s_commands args) (unat (s_cmd_size args)) = Some bytes
              \<and> cmds = take (unat (s_cmd_size args div 4)) (dwords_of_bytes bytes)
              \<and> length cmds = unat (s_cmd_size args div 4)
              \<and> cmd_ring mdev' = Some (ring_after_submit ring args cmds)
              \<and> queue_id (ring_after_submit ring args cmds) = queue_id ring
              \<and> dma_addr (ring_after_submit ring args cmds) = dma_addr ring
              \<and> (ring_wf ring k \<longrightarrow>
                   ring_wf (ring_after_submit ring args cmds) k
                   \<and> unat (tail (ring_after_submit ring args cmds))
                       = (unat (tail ring) + length (submitted_dwords args cmds)) mod 2 ^ k
                   \<and> (\<forall>i < length (submitted_dwords args cmds).
                         length (submitted_dwords args cmds) - i \<le> 2 ^ k \<longrightarrow>
                         vaddr (ring_after_submit ring args cmds) ! ((unat (tail ring) + i) mod 2 ^ k)
                           = submitted_dwords args cmds ! i))
              \<and> wlog (regs mdev') = wlog (regs mdev) @
                   [(MGPU_REG_CMD_TAIL + queue_id ring * 0x10, tail (ring_after_submit ring args cmds)),
                    (MGPU_REG_DOORBELL (queue_id ring), 1)]"
    if r: "cmd_ring mdev = Some ring" and s: "mgpu_submit_commands env mdev args = (OK, mdev')" for mdev'
  proof -
    have c: "submit_copy_and_write env mdev ring args = (OK, mdev')"
      using r s g by (simp add: mgpu_submit_commands_def split: if_splits)
    then obtain bytes where
      cp: "copy_from_user (user_mem env) (s_commands args) (unat (s_cmd_size args)) = Some bytes"
      and t: "submit_to_ring mdev ring args
                (take (unat (s_cmd_size args div 4)) (dwords_of_bytes bytes)) = (OK, mdev')"
      by (auto simp: submit_copy_and_write_def split: if_splits option.splits)
    let ?cmds = "take (unat (s_cmd_size args div 4)) (dwords_of_bytes bytes)"
    have len: "length ?cmds = unat (s_cmd_size args div 4)"
      using copy_from_user_length [OF cp] by (simp add: dwords_of_bytes_length unat_div)
    have fields: "queue_id (ring_after_submit ring args ?cmds) = queue_id ring
        \<and> dma_addr (ring_after_submit ring args ?cmds) = dma_addr ring"
      by (simp add: ring_after_submit_def Let_def mgpu_ring_write_fields)
    have wf: "ring_wf ring k \<longrightarrow>
                   ring_wf (ring_after_submit ring args ?cmds) k
                   \<and> unat (tail (ring_after_submit ring args ?cmds))
                       = (unat (tail ring) + length (submitted_dwords args ?cmds)) mod 2 ^ k
                   \<and> (\<forall>i < length (submitted_dwords args ?cmds).
                         length (submitted_dwords args ?cmds) - i \<le> 2 ^ k \<longrightarrow>
                         vaddr (ring_after_submit ring args ?cmds) ! ((unat (tail ring) + i) mod 2 ^ k)
                           = submitted_dwords args ?cmds ! i)"
      using ring_after_submit_wf [of ring k args ?cmds] by blast
    show ?thesis
      using cp len fields wf submit_to_ring_ok [OF t] by blast
  qed
  have none: "fst (mgpu_submit_commands env mdev args) = Inl ENOMEM
                \<and> cmd_ring (snd (mgpu_submit_commands env mdev args)) = None"
    if "cmd_ring mdev = None" "s_commands args \<noteq> 0" "s_cmd_size args \<noteq> 0" "ring_alloc env = None"
    using that g by (simp add: mgpu_submit_commands_def mgpu_ring_create_min)
  have keep: "\<exists>ring'. cmd_ring (snd (mgpu_submit_commands env mdev args)) = Some ring'
                \<and> queue_id ring' = queue_id ring \<and> dma_addr ring' = dma_addr ring
                \<and> (ring_wf ring k \<longrightarrow> ring_wf ring' k)"
    if r: "cmd_ring mdev = Some ring"
    using r submit_copy_and_write_ring [OF r, of env args k]
    by (simp add: mgpu_submit_commands_def)
  have some: "\<exists>ring'. cmd_ring (snd (mgpu_submit_commands env mdev args)) = Some ring'
                \<and> queue_id ring' = s_queue_id args \<and> dma_addr ring' = a \<and> ring_wf ring' 10"
    if n: "cmd_ring mdev = None" "s_commands args \<noteq> 0" "s_cmd_size args \<noteq> 0" and a: "ring_alloc env = Some a" for a
  proof -
    let ?r = "\<lparr>vaddr = replicate 1024 0, dma_addr = a, ring_size = 4096,
               head = 0, tail = 0, queue_id = s_queue_id args, submitted_cmds = 0, completed_cmds = 0\<rparr>"
    obtain m where e: "mgpu_submit_commands env mdev args =
        submit_copy_and_write env (mdev\<lparr>regs := m, cmd_ring := Some ?r\<rparr>) ?r args"
      using n a g by (simp add: mgpu_submit_commands_def mgpu_ring_create_min)
    have wf: "ring_wf ?r 10"
      by (simp add: ring_wf_def)
    show ?thesis
      using submit_copy_and_write_ring [of "mdev\<lparr>regs := m, cmd_ring := Some ?r\<rparr>" ?r env args 10] e wf
      by auto
  qed
  have init: "case ring_alloc env of
           None \<Rightarrow> cmd_ring (snd (mgpu_cmdq_init env mdev)) = None
         | Some a \<Rightarrow> \<exists>ring'. cmd_ring (snd (mgpu_cmdq_init env mdev)) = Some ring'
                      \<and> queue_id ring' = 0 \<and> dma_addr ring' = a \<and> ring_wf ring' 10"
    by (simp add: mgpu_cmdq_init_def mgpu_ring_create_min ring_wf_def split: option.splits)
  have A: "cmd_ring mdev = Some ring \<longrightarrow>
            (\<forall>q. q < MGPU_MAX_QUEUES \<longrightarrow>
               mgpu_submit_commands env mdev (args\<lparr>s_queue_id := q\<rparr>) = mgpu_submit_commands env mdev args)
          \<and> (\<forall>mdev'. mgpu_submit_commands env mdev args = (OK, mdev') \<longrightarrow>
               (\<exists>bytes cmds.
                  copy_from_user (user_mem env) (s_commands args) (unat (s_cmd_size args)) = Some bytes
                  \<and> cmds = take (unat (s_cmd_size args div 4)) (dwords_of_bytes bytes)
                  \<and> length cmds = unat (s_cmd_size args div 4)
                  \<and> cmd_ring mdev' = Some (ring_after_submit ring args cmds)
                  \<and> queue_id (ring_after_submit ring args cmds) = queue_id ring
                  \<and> dma_addr (ring_after_submit ring args cmds) = dma_addr ring
                  \<and> (ring_wf ring k \<longrightarrow>
                       ring_wf (ring_after_submit ring args cmds) k
                       \<and> unat (tail (ring_after_submit ring args cmds))
                           = (unat (tail ring) + length (submitted_dwords args cmds)) mod 2 ^ k
                       \<and> (\<forall>i < length (submitted_dwords args cmds).
                             length (submitted_dwords args cmds) - i \<le> 2 ^ k \<longrightarrow>
                             vaddr (ring_after_submit ring args cmds) ! ((unat (tail ring) + i) mod 2 ^ k)
                               = submitted_dwords args cmds ! i))
                  \<and> wlog (regs mdev') = wlog (regs mdev) @
                       [(MGPU_REG_CMD_TAIL + queue_id ring * 0x10, tail (ring_after_submit ring args cmds)),
                        (MGPU_REG_DOORBELL (queue_id ring), 1)]))
          \<and> (\<exists>ring'. cmd_ring (snd (mgpu_submit_commands env mdev args)) = Some ring'
                \<and> queue_id ring' = queue_id ring \<and> dma_addr ring' = dma_addr ring
                \<and> (ring_wf ring k \<longrightarrow> ring_wf ring' k))"
    using indep ok keep by blast
  have B: "cmd_ring mdev = None \<and> s_commands args \<noteq> 0 \<and> s_cmd_size args \<noteq> 0 \<longrightarrow>
          (case ring_alloc env of
             None \<Rightarrow> fst (mgpu_submit_commands env mdev args) = Inl ENOMEM
                      \<and> cmd_ring (snd (mgpu_submit_commands env mdev args)) = None
           | Some a \<Rightarrow> \<exists>ring'. cmd_ring (snd (mgpu_submit_commands env mdev args)) = Some ring'
                      \<and> queue_id ring' = s_queue_id args \<and> dma_addr ring' = a \<and> ring_wf ring' 10)"
    using none some by (auto split: option.splits)
  show ?thesis
    using A B init by blast
qed

lemma cmdq_device_example_ring:
  "cmd_ring cmdq_device_example = Some \<lparr>vaddr = replicate 1024 0, dma_addr = 0x100000, ring_size = 4096,
               head = 0, tail = 0, queue_id = 0, submitted_cmds = 0, completed_cmds = 0\<rparr>"
  by (simp add: cmdq_device_example_def mgpu_cmdq_init_def mgpu_ring_create_min env_example_def)

lemma env_example_allocs:
  "kmalloc_ok env_example" "ring_alloc env_example = Some 0x100000"
  by (simp_all add: env_example_def)

lemma nop_copy:
  "copy_from_user (user_mem env_example) 0x8000 4 = Some [0x00, 0x01, 0x00, 0x00]"
  "dwords_of_bytes [0x00, 0x01, 0x00, 0x00] = [0x100]"
  by (simp_all add: copy_from_user_def env_example_def upt_rec)

lemma nop_run:
  "fst (mgpu_submit_commands env_example cmdq_device_example (nop_submit 5)) = OK"
  by (simp add: mgpu_submit_commands_def cmdq_device_example_ring nop_submit_def
      MGPU_MAX_QUEUES_def submit_copy_and_write_def nop_copy
      submit_to_ring_def mgpu_ring_wait_space_def ring_wait_space_loop.simps [of 1000]
      mgpu_ring_space_def mgpu_read_def cmdq_device_example_def mgpu_cmdq_init_def
      mgpu_ring_create_min probe_device_def quiet_mmio_def Let_def submit_finish_def
      MGPU_SUBMIT_FLAGS_FENCE_def MGPU_SUBMIT_FLAGS_SYNC_def mgpu_ring_kick_def mgpu_write_def
      mgpu_ring_write_def env_example_allocs)

text \<open>
  A submission of six bytes from that buffer faults on the two bytes behind the
  command: nothing is written and the device is as before.
\<close>

lemma mgpu_submit_commands_faults_on_trailing_bytes:
  "mgpu_submit_commands env_example cmdq_device_example ((nop_submit 0)\<lparr>s_cmd_size := 6\<rparr>)
     = (Inl EFAULT, cmdq_device_example)"
  by (simp add: mgpu_submit_commands_def cmdq_device_example_ring nop_submit_def
      MGPU_MAX_QUEUES_def submit_copy_and_write_def copy_from_user_def env_example_def upt_rec)

theorem mgpu_submit_commands_single_cached_ring_witness:
  "mgpu_submit_commands env_example cmdq_device_example (nop_submit 5)
     = mgpu_submit_commands env_example cmdq_device_example (nop_submit 0)
   \<and> fst (mgpu_submit_commands env_example cmdq_device_example (nop_submit 5)) = OK
   \<and> map_option queue_id
        (cmd_ring (snd (mgpu_submit_commands env_example cmdq_device_example (nop_submit 5)))) = Some 0
   \<and> map_option (\<lambda>r. vaddr r ! 0)
        (cmd_ring (snd (mgpu_submit_commands env_example cmdq_device_example (nop_submit 5)))) = Some 0x100
   \<and> map_option (\<lambda>r. unat (tail r))
        (cmd_ring (snd (mgpu_submit_commands env_example cmdq_device_example (nop_submit 5)))) = Some 1
   \<and> drop 4 (wlog (regs (snd (mgpu_submit_commands env_example cmdq_device_example (nop_submit 5)))))
        = [(0x4C, 1), (0x2000, 1)]
   \<and> map_option queue_id
        (cmd_ring (snd (mgpu_submit_commands env_example probe_device (nop_submit 5)))) = Some 5"
proof -
  let ?r = "\<lparr>vaddr = replicate 1024 0, dma_addr = 0x100000, ring_size = 4096,
               head = 0, tail = 0, queue_id = 0, submitted_cmds = 0, completed_cmds = 0\<rparr> :: mgpu_ring"
  let ?a = "ring_after_submit ?r (nop_submit 5) [0x100]"
  have q5: "s_queue_id (nop_submit 5) < MGPU_MAX_QUEUES"
    by (simp add: nop_submit_def MGPU_MAX_QUEUES_def)
  note t = mgpu_submit_commands_single_cached_ring
    [OF q5, where mdev = cmdq_device_example and ring = ?r and env = env_example and k = 10]
  note t2 = mgpu_submit_commands_single_cached_ring
    [OF q5, where mdev = probe_device and ring = ?r and env = env_example and k = 10]
  obtain d where run: "mgpu_submit_commands env_example cmdq_device_example (nop_submit 5) = (OK, d)"
    using nop_run by (cases "mgpu_submit_commands env_example cmdq_device_example (nop_submit 5)") simp
  have z: "(nop_submit 5)\<lparr>s_queue_id := 0\<rparr> = nop_submit 0"
    by (simp add: nop_submit_def)
  have cp: "copy_from_user (user_mem env_example) (s_commands (nop_submit 5))
              (unat (s_cmd_size (nop_submit 5))) = Some [0x00, 0x01, 0x00, 0x00]"
    "take (unat (s_cmd_size (nop_submit 5) div 4)) (dwords_of_bytes [0x00, 0x01, 0x00, 0x00]) = [0x100]"
    by (simp_all add: nop_copy nop_submit_def)
  have pl: "submitted_dwords (nop_submit 5) [0x100] = [0x100]"
    by (simp add: submitted_dwords_def nop_submit_def MGPU_SUBMIT_FLAGS_FENCE_def)
  have wf: "ring_wf ?r 10"
    by (simp add: ring_wf_def)
  have w0: "length (wlog (regs cmdq_device_example)) = 4"
    by (simp add: cmdq_device_example_def mgpu_cmdq_init_def mgpu_ring_create_min
        env_example_def probe_device_def quiet_mmio_def)
  have a: "mgpu_submit_commands env_example cmdq_device_example (nop_submit 5)
             = mgpu_submit_commands env_example cmdq_device_example (nop_submit 0)"
  proof -
    have "\<forall>q. q < MGPU_MAX_QUEUES \<longrightarrow>
            mgpu_submit_commands env_example cmdq_device_example ((nop_submit 5)\<lparr>s_queue_id := q\<rparr>)
              = mgpu_submit_commands env_example cmdq_device_example (nop_submit 5)"
      using t cmdq_device_example_ring by blast
    from this [rule_format, of 0] z show ?thesis
      by (simp add: MGPU_MAX_QUEUES_def)
  qed
  have b: "cmd_ring d = Some ?a \<and> queue_id ?a = 0 \<and> vaddr ?a ! 0 = 0x100 \<and> unat (tail ?a) = 1
         \<and> wlog (regs d) = wlog (regs cmdq_device_example) @ [(0x4C, 1), (0x2000, 1)]"
  proof -
    have "\<forall>mdev'. mgpu_submit_commands env_example cmdq_device_example (nop_submit 5) = (OK, mdev') \<longrightarrow>
            (\<exists>bytes cmds.
               copy_from_user (user_mem env_example) (s_commands (nop_submit 5))
                 (unat (s_cmd_size (nop_submit 5))) = Some bytes
               \<and> cmds = take (unat (s_cmd_size (nop_submit 5) div 4)) (dwords_of_bytes bytes)
               \<and> length cmds = unat (s_cmd_size (nop_submit 5) div 4)
               \<and> cmd_ring mdev' = Some (ring_after_submit ?r (nop_submit 5) cmds)
               \<and> queue_id (ring_after_submit ?r (nop_submit 5) cmds) = queue_id ?r
               \<and> dma_addr (ring_after_submit ?r (nop_submit 5) cmds) = dma_addr ?r
               \<and> (ring_wf ?r 10 \<longrightarrow>
                    ring_wf (ring_after_submit ?r (nop_submit 5) cmds) 10
                    \<and> unat (tail (ring_after_submit ?r (nop_submit 5) cmds))
                        = (unat (tail ?r) + length (submitted_dwords (nop_submit 5) cmds)) mod 2 ^ 10
                    \<and> (\<forall>i < length (submitted_dwords (nop_submit 5) cmds).
                          length (submitted_dwords (nop_submit 5) cmds) - i \<le> 2 ^ 10 \<longrightarrow>
                          vaddr (ring_after_submit ?r (nop_submit 5) cmds) ! ((unat (tail ?r) + i) mod 2 ^ 10)
                            = submitted_dwords (nop_submit 5) cmds ! i))
               \<and> wlog (regs mdev') = wlog (regs cmdq_device_example) @
                    [(MGPU_REG_CMD_TAIL + queue_id ?r * 0x10, tail (ring_after_submit ?r (nop_submit 5) cmds)),
                     (MGPU_REG_DOORBELL (queue_id ?r), 1)])"
      using t cmdq_device_example_ring by blast
    from this [rule_format, OF run] cp
    have e: "cmd_ring d = Some ?a \<and> queue_id ?a = queue_id ?r
         \<and> (ring_wf ?r 10 \<longrightarrow>
               unat (tail ?a) = (unat (tail ?r) + length (submitted_dwords (nop_submit 5) [0x100])) mod 2 ^ 10
               \<and> (\<forall>i < length (submitted_dwords (nop_submit 5) [0x100]).
                     length (submitted_dwords (nop_submit 5) [0x100]) - i \<le> 2 ^ 10 \<longrightarrow>
                     vaddr ?a ! ((unat (tail ?r) + i) mod 2 ^ 10) = submitted_dwords (nop_submit 5) [0x100] ! i))
         \<and> wlog (regs d) = wlog (regs cmdq_device_example) @
              [(MGPU_REG_CMD_TAIL + queue_id ?r * 0x10, tail ?a), (MGPU_REG_DOORBELL (queue_id ?r), 1)]"
      by auto
    then have tl: "unat (tail ?a) = 1"
      and c0: "\<forall>i < length [0x100 :: u32]. length [0x100 :: u32] - i \<le> 2 ^ 10 \<longrightarrow>
                 vaddr ?a ! ((unat (tail ?r) + i) mod 2 ^ 10) = [0x100] ! i"
      using wf unfolding pl by simp_all
    have v0: "vaddr ?a ! 0 = 0x100"
      using c0 [rule_format, of 0] by simp
    have tw: "tail ?a = 1"
      using tl by (simp add: word_unat_eq_iff)
    show ?thesis
      using e v0 tl tw by (simp add: reg_defs)
  qed
  have c: "map_option queue_id
        (cmd_ring (snd (mgpu_submit_commands env_example probe_device (nop_submit 5)))) = Some 5"
    using t2 by (auto simp: probe_device_def env_example_def nop_submit_def)
  have s5: "snd (mgpu_submit_commands env_example cmdq_device_example (nop_submit 5)) = d"
    "fst (mgpu_submit_commands env_example cmdq_device_example (nop_submit 5)) = OK"
    using run by simp_all
  show ?thesis
    by (intro conjI, rule a) (simp_all add: s5 b c w0)
qed

subsection \<open>Reset scheduling\<close>

lemma reset_run_append:
  "reset_run hw (xs @ ys) s = reset_run hw ys (reset_run hw xs s)"
  by (simp add: reset_run_def)

lemma reset_run_Cons:
  "reset_run hw (e # evs) s = reset_run hw evs (reset_step hw s e)"
  by (simp add: reset_run_def)

text \<open>
  While nobody calls \<open>mgpu_reset_schedule\<close>, the worker alone changes neither the
  reset counter nor the number of executions started plus pending, and an execution
  once started stays counted.
\<close>

lemma reset_step_worker_only:
  assumes "e \<noteq> Schedule"
  shows "reset_count (dev (reset_step hw s e)) = reset_count (dev s)
     \<and> cycles (reset_step hw s e) + (if reset_work_pending (dev (reset_step hw s e)) then 1 else 0)
         = cycles s + (if reset_work_pending (dev s) then 1 else 0)
     \<and> cycles s \<le> cycles (reset_step hw s e)"
  using assms
  by (cases e) (simp_all add: mgpu_reset_work_begin_def mgpu_reset_work_end_def split: prod.splits)

lemma reset_run_worker_only:
  assumes "Schedule \<notin> set ws"
  shows "reset_count (dev (reset_run hw ws s)) = reset_count (dev s)
     \<and> cycles (reset_run hw ws s) + (if reset_work_pending (dev (reset_run hw ws s)) then 1 else 0)
         = cycles s + (if reset_work_pending (dev s) then 1 else 0)
     \<and> cycles s \<le> cycles (reset_run hw ws s)"
  using assms
proof (induction ws arbitrary: s)
  case Nil
  show ?case by (simp add: reset_run_def)
next
  case (Cons e ws)
  have e: "e \<noteq> Schedule" and ws: "Schedule \<notin> set ws"
    using Cons.prems by auto
  note st = reset_step_worker_only [OF e, of hw s]
  note ih = Cons.IH [OF ws, of "reset_step hw s e"]
  show ?case
    unfolding reset_run_Cons using st ih by (simp split: if_splits)
qed

text \<open>
  C9.  The claim reads: scheduling a reset while one is in progress is a no-op, and two
  consecutive schedules converge to one reset cycle with the reset counter increased by
  exactly one.  \<open>in_reset\<close> is set by the work function, not by
  \<open>mgpu_reset_schedule\<close>, and the counter is incremented by \<open>mgpu_reset_schedule\<close>:
  two schedules made before the worker starts both find \<open>in_reset\<close> clear, and the one
  reset cycle that follows leaves the counter at two.  A second schedule that arrives
  after the worker has taken the item but before \<open>mgpu_reset_work\<close> has set
  \<open>in_reset\<close> is accepted as well and queues the item again: two reset cycles follow.
\<close>

theorem mgpu_reset_schedule_twice_counts_twice:
  "reset_count (dev (reset_run id
      [Schedule, Schedule, WorkerDequeue, WorkerSetFlag, WorkerFinish] reset_sys_example)) = 2
   \<and> cycles (reset_run id
      [Schedule, Schedule, WorkerDequeue, WorkerSetFlag, WorkerFinish] reset_sys_example) = 1
   \<and> reset_count (dev (reset_run id
      [Schedule, WorkerDequeue, Schedule, WorkerSetFlag, WorkerFinish,
       WorkerDequeue, WorkerSetFlag, WorkerFinish] reset_sys_example)) = 2
   \<and> cycles (reset_run id
      [Schedule, WorkerDequeue, Schedule, WorkerSetFlag, WorkerFinish,
       WorkerDequeue, WorkerSetFlag, WorkerFinish] reset_sys_example) = 2"
  by (simp add: reset_run_def reset_sys_example_def mgpu_reset_init_def mgpu_reset_schedule_def
      mgpu_reset_work_begin_def mgpu_reset_work_end_def probe_device_def)

text \<open>
  C9, as the code has it.  A schedule made while \<open>in_reset\<close> is set changes nothing.
  From a state with no reset in progress and none pending, two calls of
  \<open>mgpu_reset_schedule\<close> one right after the other are both accepted: the work item is
  pending once and the counter has gone up by two.  Whatever the worker does afterwards
  (\<open>ws\<close>, any sequence of worker steps), as long as nobody schedules again, the
  counter stays there and at most one execution of the reset work starts; once the
  worker has run the item, exactly one has.  A second schedule that arrives after the
  reset work has set \<open>in_reset\<close> is dropped: then one execution starts and the counter
  has gone up by one, whatever the worker does afterwards.
\<close>

theorem mgpu_reset_schedule_idempotent_in_reset:
  assumes "in_reset (dev s) = 0" and "\<not> reset_work_pending (dev s)" and "phase s = WorkerIdle"
    and "Schedule \<notin> set ws"
  shows "(in_reset mdev \<noteq> 0 \<longrightarrow> mgpu_reset_schedule mdev = mdev)
     \<and> reset_work_pending (dev (reset_run hw [Schedule, Schedule] s))
     \<and> reset_count (dev (reset_run hw ([Schedule, Schedule] @ ws) s)) = reset_count (dev s) + 2
     \<and> cycles (reset_run hw ([Schedule, Schedule] @ ws) s) \<le> cycles s + 1
     \<and> cycles (reset_run hw ([Schedule, Schedule, WorkerDequeue, WorkerSetFlag, WorkerFinish] @ ws) s)
         = cycles s + 1
     \<and> cycles (reset_run hw ([Schedule, WorkerDequeue, WorkerSetFlag, Schedule] @ ws) s)
         = cycles s + 1
     \<and> reset_count (dev (reset_run hw ([Schedule, WorkerDequeue, WorkerSetFlag, Schedule] @ ws) s))
         = reset_count (dev s) + 1"
proof -
  let ?a = "reset_run hw [Schedule, Schedule] s"
  let ?b = "reset_run hw [Schedule, Schedule, WorkerDequeue, WorkerSetFlag, WorkerFinish] s"
  let ?c = "reset_run hw [Schedule, WorkerDequeue, WorkerSetFlag, Schedule] s"
  have a: "reset_work_pending (dev ?a)" "reset_count (dev ?a) = reset_count (dev s) + 2"
    "cycles ?a = cycles s"
    using assms(1-3) by (simp_all add: reset_run_def mgpu_reset_schedule_def)
  have b: "\<not> reset_work_pending (dev ?b)" "cycles ?b = cycles s + 1"
    using assms(1-3)
    by (simp_all add: reset_run_def mgpu_reset_schedule_def mgpu_reset_work_begin_def
        mgpu_reset_work_end_def split: prod.splits)
  have c: "\<not> reset_work_pending (dev ?c)" "cycles ?c = cycles s + 1"
    "reset_count (dev ?c) = reset_count (dev s) + 1"
    using assms(1-3)
    by (simp_all add: reset_run_def mgpu_reset_schedule_def mgpu_reset_work_begin_def)
  note wa = reset_run_worker_only [OF assms(4), of hw ?a]
  note wb = reset_run_worker_only [OF assms(4), of hw ?b]
  note wc = reset_run_worker_only [OF assms(4), of hw ?c]
  have 1: "in_reset mdev \<noteq> 0 \<longrightarrow> mgpu_reset_schedule mdev = mdev"
    by (simp add: mgpu_reset_schedule_def)
  have 3: "reset_count (dev (reset_run hw ([Schedule, Schedule] @ ws) s)) = reset_count (dev s) + 2"
    unfolding reset_run_append using wa a by simp
  have 4: "cycles (reset_run hw ([Schedule, Schedule] @ ws) s) \<le> cycles s + 1"
    unfolding reset_run_append using wa a by (simp split: if_splits)
  have 5: "cycles (reset_run hw ([Schedule, Schedule, WorkerDequeue, WorkerSetFlag, WorkerFinish] @ ws) s)
             = cycles s + 1"
    unfolding reset_run_append using wb b by (simp split: if_splits)
  have 6: "cycles (reset_run hw ([Schedule, WorkerDequeue, WorkerSetFlag, Schedule] @ ws) s)
             = cycles s + 1"
    unfolding reset_run_append using wc c by (simp split: if_splits)
  have 7: "reset_count (dev (reset_run hw ([Schedule, WorkerDequeue, WorkerSetFlag, Schedule] @ ws) s))
             = reset_count (dev s) + 1"
    unfolding reset_run_append using wc c by simp
  show ?thesis
    using 1 a(1) 3 4 5 6 7 by blast
qed

theorem mgpu_reset_schedule_idempotent_in_reset_witness:
  "mgpu_reset_schedule (mgpu_reset_work_begin probe_device) = mgpu_reset_work_begin probe_device
   \<and> reset_work_pending (dev (reset_run id [Schedule, Schedule] reset_sys_example))
   \<and> reset_count (dev (reset_run id
        ([Schedule, Schedule] @ [WorkerDequeue, WorkerSetFlag, WorkerFinish, WorkerDequeue])
        reset_sys_example)) = 2
   \<and> cycles (reset_run id
        ([Schedule, Schedule, WorkerDequeue, WorkerSetFlag, WorkerFinish]
          @ [WorkerDequeue, WorkerSetFlag, WorkerFinish, WorkerDequeue])
        reset_sys_example) = 1
   \<and> cycles (reset_run id
        ([Schedule, WorkerDequeue, WorkerSetFlag, Schedule]
          @ [WorkerDequeue, WorkerSetFlag, WorkerFinish, WorkerDequeue])
        reset_sys_example) = 1
   \<and> reset_count (dev (reset_run id
        ([Schedule, WorkerDequeue, WorkerSetFlag, Schedule]
          @ [WorkerDequeue, WorkerSetFlag, WorkerFinish, WorkerDequeue])
        reset_sys_example)) = 1"
proof -
  have h: "in_reset (dev reset_sys_example) = 0" "\<not> reset_work_pending (dev reset_sys_example)"
    "phase reset_sys_example = WorkerIdle"
    by (simp_all add: reset_sys_example_def mgpu_reset_init_def)
  have w: "Schedule \<notin> set [WorkerDequeue, WorkerSetFlag, WorkerFinish, WorkerDequeue]"
    by simp
  have b: "in_reset (mgpu_reset_work_begin probe_device) \<noteq> 0"
    by (simp add: mgpu_reset_work_begin_def)
  have z: "reset_count (dev reset_sys_example) = 0" "cycles reset_sys_example = 0"
    by (simp_all add: reset_sys_example_def mgpu_reset_init_def)
  show ?thesis
    using mgpu_reset_schedule_idempotent_in_reset
      [OF h w, of "mgpu_reset_work_begin probe_device" id] b z
    by simp
qed

subsection \<open>Health monitoring\<close>

lemma mgpu_health_check_heartbeat_miss:
  assumes "rd m (nreads m) MGPU_REG_SCRATCH \<noteq> heartbeat_counter monitor + 1"
  shows "mgpu_health_check_heartbeat jf monitor m =
     (False, monitor\<lparr>heartbeat_counter := heartbeat_counter monitor + 1,
        heartbeat_misses := heartbeat_misses monitor + 1, last_heartbeat := jf\<rparr>,
      m\<lparr>wlog := wlog m @ [(MGPU_REG_SCRATCH, heartbeat_counter monitor + 1)], nreads := Suc (nreads m)\<rparr>)"
  using assms by (simp add: mgpu_health_check_heartbeat_def mgpu_write_def mgpu_read_def Let_def)

lemma mgpu_health_check_errors_keeps: "heartbeat_misses (fst (snd (mgpu_health_check_errors kt monitor m))) = heartbeat_misses monitor
  \<and> recovery_count (fst (snd (mgpu_health_check_errors kt monitor m))) = recovery_count monitor"
  by (simp add: mgpu_health_check_errors_def Let_def split: prod.splits)

lemma mgpu_health_check_hang_keeps: "heartbeat_misses (fst (snd (mgpu_health_check_hang hz jf kt monitor m))) = heartbeat_misses monitor
  \<and> recovery_count (fst (snd (mgpu_health_check_hang hz jf kt monitor m))) = recovery_count monitor"
  by (simp add: mgpu_health_check_hang_def Let_def split: prod.splits)

text \<open>
  C4.  The claim reads: a single heartbeat mismatch only increments the miss counter, and
  the health check schedules a reset for heartbeat failure only once consecutive misses
  exceed a threshold, not on the first mismatch.  \<open>mgpu_health_check\<close> sets
  \<open>needs_reset\<close> whenever \<open>mgpu_health_check_heartbeat\<close> returns false: a monitor
  that has never missed a heartbeat, on a device whose scratch register reads back zero
  and whose status is clear, schedules the reset in that first pass.
\<close>

theorem mgpu_health_check_first_mismatch_schedules_reset:
  "heartbeat_misses (fst (mgpu_health_check 1000 0 0 fresh_monitor (mgpu_reset_init probe_device))) = 1
   \<and> reset_work_pending (snd (mgpu_health_check 1000 0 0 fresh_monitor (mgpu_reset_init probe_device)))
   \<and> reset_count (snd (mgpu_health_check 1000 0 0 fresh_monitor (mgpu_reset_init probe_device))) = 1"
  by (simp add: mgpu_health_check_def mgpu_health_check_heartbeat_def mgpu_health_check_errors_def
      mgpu_health_check_hang_def fresh_monitor_def mgpu_reset_init_def probe_device_def quiet_mmio_def
      mgpu_read_def mgpu_write_def mgpu_reset_schedule_def Let_def MGPU_STATUS_BUSY_def MGPU_STATUS_ERROR_def
      MGPU_STATUS_HALTED_def)

text \<open>
  C4, as the code has it.  When the scratch register does not read back the value
  written, one pass of \<open>mgpu_health_check\<close> increments the miss counter by one and the
  recovery counter by one and calls \<open>mgpu_reset_schedule\<close>: with no reset in progress
  the reset work is pending afterwards and the reset counter is one higher.  This holds
  for every mismatch, whatever the number of misses before it.
\<close>

theorem mgpu_health_check_resets_on_any_mismatch:
  assumes "rd (regs mdev) (nreads (regs mdev)) MGPU_REG_SCRATCH \<noteq> heartbeat_counter monitor + 1"
  shows "heartbeat_misses (fst (mgpu_health_check hz jf kt monitor mdev)) = heartbeat_misses monitor + 1
     \<and> recovery_count (fst (mgpu_health_check hz jf kt monitor mdev)) = recovery_count monitor + 1
     \<and> (\<exists>m. snd (mgpu_health_check hz jf kt monitor mdev) = mgpu_reset_schedule (mdev\<lparr>regs := m\<rparr>))
     \<and> (in_reset mdev = 0 \<longrightarrow>
          reset_work_pending (snd (mgpu_health_check hz jf kt monitor mdev))
          \<and> reset_count (snd (mgpu_health_check hz jf kt monitor mdev)) = reset_count mdev + 1)"
proof -
  define mon0 where "mon0 = monitor\<lparr>check_count := check_count monitor + 1, last_check := kt\<rparr>"
  have a: "rd (regs mdev) (nreads (regs mdev)) MGPU_REG_SCRATCH \<noteq> heartbeat_counter mon0 + 1"
    using assms by (simp add: mon0_def)
  note hb = mgpu_health_check_heartbeat_miss [OF a, of jf]
  obtain n mon2 m2 where e: "mgpu_health_check_errors kt (fst (snd (mgpu_health_check_heartbeat jf mon0 (regs mdev))))
       (snd (snd (mgpu_health_check_heartbeat jf mon0 (regs mdev)))) = (n, mon2, m2)"
    using prod_cases3 by blast
  obtain hung mon3 m3 where h: "mgpu_health_check_hang hz jf kt mon2 m2 = (hung, mon3, m3)"
    using prod_cases3 by blast
  have k2: "heartbeat_misses mon2 = heartbeat_misses monitor + 1 \<and> recovery_count mon2 = recovery_count monitor"
    using mgpu_health_check_errors_keeps [of kt "fst (snd (mgpu_health_check_heartbeat jf mon0 (regs mdev)))"
        "snd (snd (mgpu_health_check_heartbeat jf mon0 (regs mdev)))"] e
    by (simp add: hb) (simp add: mon0_def)
  have k3: "heartbeat_misses mon3 = heartbeat_misses monitor + 1 \<and> recovery_count mon3 = recovery_count monitor"
    using mgpu_health_check_hang_keeps [of hz jf kt mon2 m2] h k2 by simp
  have r: "mgpu_health_check hz jf kt monitor mdev =
      (mon3\<lparr>recovery_count := recovery_count mon3 + 1\<rparr>, mgpu_reset_schedule (mdev\<lparr>regs := m3\<rparr>))"
    using e h unfolding mgpu_health_check_def mon0_def [symmetric] by (simp add: Let_def hb)
  show ?thesis
    using r k3 by (auto simp: mgpu_reset_schedule_def)
qed

theorem mgpu_health_check_resets_on_any_mismatch_witness:
  "heartbeat_misses (fst (mgpu_health_check 1000 0 0 (fresh_monitor\<lparr>heartbeat_counter := 41\<rparr>)
       (mgpu_reset_init probe_device))) = 1
   \<and> recovery_count (fst (mgpu_health_check 1000 0 0 (fresh_monitor\<lparr>heartbeat_counter := 41\<rparr>)
       (mgpu_reset_init probe_device))) = 1
   \<and> reset_work_pending (snd (mgpu_health_check 1000 0 0 (fresh_monitor\<lparr>heartbeat_counter := 41\<rparr>)
       (mgpu_reset_init probe_device)))
   \<and> reset_count (snd (mgpu_health_check 1000 0 0 (fresh_monitor\<lparr>heartbeat_counter := 41\<rparr>)
       (mgpu_reset_init probe_device))) = 1"
proof -
  have h: "rd (regs (mgpu_reset_init probe_device)) (nreads (regs (mgpu_reset_init probe_device)))
             MGPU_REG_SCRATCH \<noteq> heartbeat_counter (fresh_monitor\<lparr>heartbeat_counter := 41\<rparr>) + 1"
    by (simp add: mgpu_reset_init_def probe_device_def quiet_mmio_def)
  show ?thesis
    using mgpu_health_check_resets_on_any_mismatch [OF h, of 1000 0 0]
    by (simp add: mgpu_reset_init_def probe_device_def fresh_monitor_def)
qed

subsection \<open>Job scheduler\<close>

lemma mgpu_sched_submit_job_queued:
  assumes "mgpu_sched_submit_job sched p = (OK, s1)"
  shows "\<exists>j. jobs s1 p = Some j \<and> state j = MGPU_JOB_QUEUED \<and> \<not> mgpu_job_is_ready j"
  using assms
  by (auto simp: mgpu_sched_submit_job_def Let_def mgpu_job_is_ready_def split: option.splits if_splits)

lemma find_ready_at: "find (ready_at sched) ps = Some p \<Longrightarrow> ready_at sched p"
  by (induction ps) (auto split: if_splits)

lemma first_ready_ready: "first_ready sched queue prios = Some (prio, p) \<Longrightarrow> ready_at sched p"
  by (induction prios) (auto split: option.splits dest: find_ready_at)

lemma mgpu_sched_process_queue_keeps_unready:
  assumes "\<not> ready_at sched p"
  shows "jobs (fst (mgpu_sched_process_queue env jf sched mdev qid)) p = jobs sched p"
proof -
  have "p' \<noteq> p" if "first_ready sched queue priority_scan_order = Some (prio, p')" for queue prio p'
    using first_ready_ready [OF that] assms by auto
  then show ?thesis
    by (auto simp: mgpu_sched_process_queue_def Let_def split: option.splits prod.splits)
qed

text \<open>
  Whatever the scheduler, a job that \<open>mgpu_sched_submit_job\<close> has enqueued is in state
  \<open>MGPU_JOB_QUEUED\<close> and a pass of \<open>mgpu_sched_process_queue\<close> over any queue leaves
  it so.
\<close>

lemma mgpu_sched_submit_job_never_selected:
  assumes "mgpu_sched_submit_job sched p = (OK, s1)"
  shows "\<exists>j. jobs s1 p = Some j \<and> state j = MGPU_JOB_QUEUED
            \<and> jobs (fst (mgpu_sched_process_queue env jf s1 mdev qid)) p = Some j"
proof -
  obtain j where j: "jobs s1 p = Some j" "state j = MGPU_JOB_QUEUED" "\<not> mgpu_job_is_ready j"
    using mgpu_sched_submit_job_queued [OF assms] by blast
  have "\<not> ready_at s1 p"
    using j by (simp add: ready_at_def)
  from mgpu_sched_process_queue_keeps_unready [OF this] j show ?thesis
    by simp
qed

lemma sched_example_submit:
  "mgpu_sched_submit_job sched_example 1 =
     (OK, sched_example\<lparr>queues := (queues sched_example)(0 := Some (queue_example\<lparr>pending := (pending queue_example)(MGPU_PRIORITY_NORMAL := [1])\<rparr>)),
         jobs := (jobs sched_example)(1 := Some (job_example\<lparr>state := MGPU_JOB_QUEUED\<rparr>)),
         total_jobs := 1\<rparr>)"
  by (simp add: mgpu_sched_submit_job_def sched_example_def job_example_def queue_example_def Let_def)

lemma cmdq_device_example_eq:
  "cmdq_device_example =
     \<lparr>regs = \<lparr>rd = (\<lambda>k off. 0), nreads = 0,
               wlog = [(0x40, 0x100000), (0x44, 4096), (0x48, 0), (0x4C, 0)]\<rparr>,
      cmd_ring = Some \<lparr>vaddr = replicate 1024 0, dma_addr = 0x100000, ring_size = 4096,
               head = 0, tail = 0, queue_id = 0, submitted_cmds = 0, completed_cmds = 0\<rparr>,
      fence_ctx = None, in_reset = 0, reset_count = 0, reset_work_pending = False\<rparr>"
  by (simp add: cmdq_device_example_def mgpu_cmdq_init_def mgpu_ring_create_min env_example_def
      probe_device_def quiet_mmio_def MGPU_REG_CMD_BASE_def MGPU_REG_CMD_SIZE_def
      MGPU_REG_CMD_HEAD_def MGPU_REG_CMD_TAIL_def)

lemma nop_submit_runs:
  "mgpu_submit_commands env_example cmdq_device_example (nop_submit 0) =
     (OK, cmdq_device_example\<lparr>
        regs := (regs cmdq_device_example)\<lparr>nreads := 1,
                  wlog := wlog (regs cmdq_device_example) @ [(0x4C, 1), (0x2000, 1)]\<rparr>,
        cmd_ring := Some \<lparr>vaddr = (replicate 1024 0)[0 := 0x100], dma_addr = 0x100000,
          ring_size = 4096, head = 0, tail = 1, queue_id = 0, submitted_cmds = 1,
          completed_cmds = 0\<rparr>\<rparr>)"
  unfolding cmdq_device_example_eq
  by (simp add: mgpu_submit_commands_def nop_submit_def
      MGPU_MAX_QUEUES_def submit_copy_and_write_def env_example_allocs nop_copy
      submit_to_ring_def mgpu_ring_wait_space_def ring_wait_space_loop.simps [of 1000]
      mgpu_ring_space_def mgpu_read_def Let_def submit_finish_def
      MGPU_SUBMIT_FLAGS_FENCE_def MGPU_SUBMIT_FLAGS_SYNC_def mgpu_ring_kick_def mgpu_write_def
      mgpu_ring_write_def MGPU_REG_CMD_HEAD_def MGPU_REG_CMD_TAIL_def MGPU_REG_DOORBELL_def
      MGPU_REG_DOORBELL_BASE_def)

text \<open>
  The scan itself works: the same job, linked into the bucket while still
  \<open>MGPU_JOB_PENDING\<close>, is taken out of the bucket, marked running and made the
  current job of the queue.
\<close>

lemma mgpu_sched_process_queue_runs_pending:
  "map_option state (jobs (fst (mgpu_sched_process_queue env_example 0 sched_pending_example
       cmdq_device_example 0)) 1) = Some MGPU_JOB_RUNNING
   \<and> map_option current_job (queues (fst (mgpu_sched_process_queue env_example 0
       sched_pending_example cmdq_device_example 0)) 0) = Some (Some 1)
   \<and> map_option (\<lambda>q. pending q MGPU_PRIORITY_NORMAL) (queues (fst (mgpu_sched_process_queue
       env_example 0 sched_pending_example cmdq_device_example 0)) 0) = Some []"
proof -
  have s: "\<lparr>s_commands = 0x8000, s_cmd_size = 4, s_queue_id = 0, s_flags = 0,
            s_fence_addr = 0, s_fence_value = 0\<rparr> = nop_submit 0"
    by (simp add: nop_submit_def)
  show ?thesis
    by (simp add: mgpu_sched_process_queue_def sched_pending_example_def sched_example_def
        queue_example_def job_example_def priority_scan_order_def ready_at_def
        mgpu_job_is_ready_def mgpu_queue_submit_job_def Let_def s nop_submit_runs)
qed

text \<open>
  C2.  The claim reads: a job with \<open>dep_count == 0\<close> that \<open>mgpu_sched_submit_job\<close> has
  enqueued into a queue with an empty current-job slot and spare depth is selected by the
  next pass of \<open>mgpu_sched_process_queue\<close>, removed from its bucket, marked running
  and submitted to the ring.  \<open>mgpu_sched_submit_job\<close> sets the state of the job to
  \<open>MGPU_JOB_QUEUED\<close>, and \<open>mgpu_job_is_ready\<close> asks for \<open>MGPU_JOB_PENDING\<close>: on
  the scheduler with one idle queue and one such job, the pass after a successful
  submission changes neither the scheduler nor the device; the job stays queued in its
  bucket and the current-job slot stays empty.
\<close>

theorem mgpu_sched_process_queue_skips_queued_job:
  "fst (mgpu_sched_submit_job sched_example 1) = OK
   \<and> mgpu_sched_process_queue env_example 0 (snd (mgpu_sched_submit_job sched_example 1)) cmdq_device_example 0
       = (snd (mgpu_sched_submit_job sched_example 1), cmdq_device_example)
   \<and> map_option state (jobs (snd (mgpu_sched_submit_job sched_example 1)) 1) = Some MGPU_JOB_QUEUED
   \<and> map_option (\<lambda>q. pending q MGPU_PRIORITY_NORMAL) (queues (snd (mgpu_sched_submit_job sched_example 1)) 0) = Some [1]
   \<and> map_option current_job (queues (snd (mgpu_sched_submit_job sched_example 1)) 0) = Some None"
  unfolding sched_example_submit
  by (simp add: mgpu_sched_process_queue_def sched_example_def queue_example_def
      job_example_def priority_scan_order_def ready_at_def mgpu_job_is_ready_def)

theorem mgpu_sched_process_queue_skips_queued_job_witness:
  "map_option state (jobs (fst (mgpu_sched_process_queue env_example 0
       (snd (mgpu_sched_submit_job sched_example 1)) cmdq_device_example 0)) 1)
     = Some MGPU_JOB_QUEUED
   \<and> snd (mgpu_sched_process_queue env_example 0
       (snd (mgpu_sched_submit_job sched_example 1)) cmdq_device_example 0)
     = cmdq_device_example"
  using mgpu_sched_process_queue_skips_queued_job by simp

text \<open>
  C3.  The claim reads: when \<open>mgpu_sched_wait_job\<close> times out it returns the timeout
  error and leaves the state of the job unchanged, so a running job stays running.  The
  timeout branch stores \<open>MGPU_JOB_TIMEOUT\<close> into the state of the job: a running job
  whose completion never arrives is marked timed out by a waiter with a 50 ms budget.
\<close>

theorem mgpu_sched_wait_job_marks_running_job_timed_out:
  "mgpu_sched_wait_job 1000 (job_example\<lparr>state := MGPU_JOB_RUNNING\<rparr>) 50 None
     = (Inl ETIMEDOUT, job_example\<lparr>state := MGPU_JOB_TIMEOUT\<rparr>)"
  by (simp add: mgpu_sched_wait_job_def wait_for_completion_timeout_def job_example_def
      msecs_to_jiffies_def)

text \<open>
  C3, as the code has it.  When the wait on the completion times out,
  \<open>mgpu_sched_wait_job\<close> returns \<open>ETIMEDOUT\<close> and sets the state of the job to
  \<open>MGPU_JOB_TIMEOUT\<close>; every other field of the job is as before.
\<close>

theorem mgpu_sched_wait_job_timeout_sets_state:
  assumes "fst (wait_for_completion_timeout job (msecs_to_jiffies hz (ucast tmo_ms)) completion) = 0"
  shows "mgpu_sched_wait_job hz job tmo_ms completion = (Inl ETIMEDOUT, job\<lparr>state := MGPU_JOB_TIMEOUT\<rparr>)"
  using assms
  by (auto simp: mgpu_sched_wait_job_def wait_for_completion_timeout_def Let_def
      split: prod.splits if_splits option.splits)

theorem mgpu_sched_wait_job_timeout_sets_state_witness:
  "mgpu_sched_wait_job 1000 (job_example\<lparr>state := MGPU_JOB_RUNNING\<rparr>) 50 (Some (80, OK))
     = (Inl ETIMEDOUT, job_example\<lparr>state := MGPU_JOB_TIMEOUT\<rparr>)"
proof -
  have h: "fst (wait_for_completion_timeout (job_example\<lparr>state := MGPU_JOB_RUNNING\<rparr>)
                  (msecs_to_jiffies 1000 (ucast (50 :: u64))) (Some (80, OK))) = 0"
    by (simp add: wait_for_completion_timeout_def msecs_to_jiffies_def job_example_def)
  show ?thesis
    using mgpu_sched_wait_job_timeout_sets_state [OF h] by simp
qed

text \<open>
  A wait that succeeds takes the completion: a second wait on the same job, with
  nothing completing it again, times out.
\<close>

lemma mgpu_sched_wait_job_second_wait_times_out:
  "fst (mgpu_sched_wait_job 1000 job_example 50 (Some (10, OK))) = OK
   \<and> fst (mgpu_sched_wait_job 1000
            (snd (mgpu_sched_wait_job 1000 job_example 50 (Some (10, OK)))) 50 None)
       = Inl ETIMEDOUT"
  by (simp add: mgpu_sched_wait_job_def wait_for_completion_timeout_def job_example_def
      msecs_to_jiffies_def job_completed_with_def complete_def completion_taken_def)

subsection \<open>Command validator\<close>

lemma find_validator_min: "find_validator op = Some v \<Longrightarrow> 1 \<le> min_size v"
proof -
  assume "find_validator op = Some v"
  then have "v \<in> set cmd_validators"
    by (auto simp: find_validator_def find_Some_iff)
  then show ?thesis
    by (auto simp: cmd_validators_def)
qed

lemma run_validate_status: "fst (run_validate f m cmd) = OK \<or> fst (run_validate f m cmd) = Inl EINVAL"
  by (auto simp: run_validate_def mgpu_validate_draw_cmd_def mgpu_validate_dma_cmd_def
      mgpu_validate_fence_cmd_def Let_def split: option.splits validate_fn.splits prod.splits)

lemma validate_loop_status:
  "fst (validate_loop m pre rest) = OK \<or> fst (validate_loop m pre rest) = Inl EINVAL"
proof (induction m pre rest rule: validate_loop.induct)
  case (1 m pre)
  then show ?case by simp
next
  case (2 m pre h rest)
  then show ?case
    using run_validate_status by (auto split: option.splits)
qed

lemma reg_read_sizes:
  fixes s :: u32
  assumes "2 \<le> s" and "s \<le> 3"
  shows "s = 2 \<or> s = 3"
proof -
  have "2 \<le> unat s" "unat s \<le> 3"
    using assms by (simp_all add: word_le_nat_alt)
  then have "unat s = 2 \<or> unat s = 3"
    by arith
  then show ?thesis
    by (simp add: word_unat_eq_iff)
qed

lemma validate_loop_records:
  "fst (validate_loop m pre rest) = OK \<Longrightarrow>
   \<forall>r \<in> set (cmd_records rest). \<exists>v. find_validator (hdr_opcode (hd r)) = Some v
      \<and> min_size v \<le> hdr_size (hd r) \<and> hdr_size (hd r) \<le> max_size v
      \<and> unat (hdr_size (hd r)) = length r"
proof (induction m pre rest rule: validate_loop.induct)
  case (1 m pre)
  then show ?case by simp
next
  case (2 m pre h rest)
  from "2.prems" obtain v where f: "find_validator (hdr_opcode h) = Some v"
    by (auto split: option.splits)
  from "2.prems" f have b: "\<not> (hdr_size h < min_size v \<or> hdr_size h > max_size v)"
    by (auto split: if_splits)
  from "2.prems" f b have l: "\<not> unat (hdr_size h) > length (h # rest)"
    by (auto split: if_splits)
  from "2.prems" f b l have rv: "\<not> fst (run_validate (validate v) m (h # rest)) \<noteq> OK"
    by (auto split: if_splits)
  from "2.prems" f b l rv have rec: "fst (validate_loop (snd (run_validate (validate v) m (h # rest)))
              (pre @ take (unat (hdr_size h))
                        ((if privileged v then hdr_set_opcode h MGPU_CMD_NOP else h) # rest))
              (drop (unat (hdr_size h)) (h # rest))) = OK"
    by (simp split: if_splits)
  note ih = "2.IH" [OF f b l rv rec]
  have "1 \<le> hdr_size h"
    using find_validator_min [OF f] b by auto
  then have pos: "0 < unat (hdr_size h)"
    by (simp add: word_le_nat_alt)
  have recs: "cmd_records (h # rest) =
      take (unat (hdr_size h)) (h # rest) # cmd_records (drop (unat (hdr_size h)) (h # rest))"
    using pos l by simp
  have first: "hd (take (unat (hdr_size h)) (h # rest)) = h
      \<and> length (take (unat (hdr_size h)) (h # rest)) = unat (hdr_size h)"
    using pos l by (cases "unat (hdr_size h)") auto
  show ?case
    unfolding recs using ih first f b by (auto simp: not_less)
qed

lemma code_bounds_vs_spec:
  "op \<noteq> MGPU_CMD_REG_READ \<Longrightarrow> code_size_bounds op = spec_size_bounds op"
  by (simp add: code_size_bounds_def spec_size_bounds_def find_validator_def cmd_validators_def
      cmd_defs)

lemma code_bounds_reg_read: "code_size_bounds MGPU_CMD_REG_READ = Some (2, 3)"
  by (simp add: code_size_bounds_def find_validator_def cmd_validators_def cmd_defs)

text \<open>
  C5.  The claim reads: a record is accepted only if its declared size lies within the
  bounds of the table of section 4.G and within the remaining payload, and a REG_READ
  record only with a declared size of exactly 3 dwords.  The row of \<open>cmd_validators\<close>
  for \<open>MGPU_CMD_REG_READ\<close> has a minimum of 2: a stream made of one REG_READ record of
  two dwords is accepted, though the table of section 4.G bounds it by 3 and 3.
\<close>

theorem mgpu_validate_commands_accepts_short_reg_read:
  "fst (mgpu_validate_commands quiet_mmio [0x207, 0]) = OK
   \<and> hdr_opcode 0x207 = MGPU_CMD_REG_READ \<and> hdr_size 0x207 = 2
   \<and> spec_size_bounds MGPU_CMD_REG_READ = Some (3, 3)"
  by (simp add: mgpu_validate_commands_def find_validator_def cmd_validators_def cmd_defs
      hdr_opcode_def hdr_size_def run_validate_def spec_size_bounds_def)

text \<open>
  C5, as the code has it.  \<open>mgpu_validate_commands\<close> returns success or \<open>EINVAL\<close>.
  When it returns success, every record of the stream has a declared size within the
  bounds that \<open>cmd_validators\<close> gives its opcode, and the record ends inside the
  payload; a REG_READ record declares 2 or 3 dwords.  The bounds of \<open>cmd_validators\<close>
  are those of the table of section 4.G for every opcode but REG_READ, whose bounds are
  2 and 3.
\<close>

theorem mgpu_validate_commands_size_bounds:
  "(fst (mgpu_validate_commands m cmds) = OK \<or> fst (mgpu_validate_commands m cmds) = Inl EINVAL)
   \<and> (fst (mgpu_validate_commands m cmds) = OK \<longrightarrow>
        (\<forall>r \<in> set (cmd_records cmds).
           \<exists>lo hi. code_size_bounds (hdr_opcode (hd r)) = Some (lo, hi)
              \<and> lo \<le> hdr_size (hd r) \<and> hdr_size (hd r) \<le> hi
              \<and> unat (hdr_size (hd r)) = length r
              \<and> (hdr_opcode (hd r) = MGPU_CMD_REG_READ \<longrightarrow>
                    hdr_size (hd r) = 2 \<or> hdr_size (hd r) = 3)))
   \<and> (\<forall>op. op \<noteq> MGPU_CMD_REG_READ \<longrightarrow> code_size_bounds op = spec_size_bounds op)
   \<and> code_size_bounds MGPU_CMD_REG_READ = Some (2, 3)"
proof -
  have a: "\<exists>lo hi. code_size_bounds (hdr_opcode (hd r)) = Some (lo, hi)
              \<and> lo \<le> hdr_size (hd r) \<and> hdr_size (hd r) \<le> hi
              \<and> unat (hdr_size (hd r)) = length r
              \<and> (hdr_opcode (hd r) = MGPU_CMD_REG_READ \<longrightarrow>
                    hdr_size (hd r) = 2 \<or> hdr_size (hd r) = 3)"
    if ok: "fst (mgpu_validate_commands m cmds) = OK" and r: "r \<in> set (cmd_records cmds)" for r
  proof -
    obtain v where v: "find_validator (hdr_opcode (hd r)) = Some v"
      "min_size v \<le> hdr_size (hd r)" "hdr_size (hd r) \<le> max_size v"
      "unat (hdr_size (hd r)) = length r"
      using validate_loop_records [of m "[]" cmds] ok r
      by (auto simp: mgpu_validate_commands_def)
    have c: "code_size_bounds (hdr_opcode (hd r)) = Some (min_size v, max_size v)"
      using v(1) by (simp add: code_size_bounds_def)
    have "hdr_size (hd r) = 2 \<or> hdr_size (hd r) = 3" if "hdr_opcode (hd r) = MGPU_CMD_REG_READ"
      using c that code_bounds_reg_read v(2,3) reg_read_sizes by auto
    then show ?thesis
      using c v by auto
  qed
  show ?thesis
    using a validate_loop_status [of m "[]" cmds] code_bounds_vs_spec code_bounds_reg_read
    by (auto simp: mgpu_validate_commands_def)
qed

lemma stream_example_ok: "fst (mgpu_validate_commands quiet_mmio stream_example) = OK"
  by (simp add: mgpu_validate_commands_def find_validator_def cmd_validators_def cmd_defs
      hdr_opcode_def hdr_size_def run_validate_def stream_example_def hdr_set_opcode_def
      mgpu_validate_fence_cmd_def)

lemma stream_example_records:
  "cmd_records stream_example = [[0x100], [0x304, 0x1000, 1], [0x207, 0]]"
  by (simp add: stream_example_def hdr_size_def)

theorem mgpu_validate_commands_size_bounds_witness:
  "fst (mgpu_validate_commands quiet_mmio stream_example) = OK
   \<and> (\<exists>lo hi. code_size_bounds (hdr_opcode 0x304) = Some (lo, hi)
         \<and> lo \<le> hdr_size 0x304 \<and> hdr_size 0x304 \<le> hi)
   \<and> (hdr_size 0x207 = 2 \<or> hdr_size 0x207 = 3)"
proof -
  have m1: "[0x304, 0x1000, 1] \<in> set (cmd_records stream_example)"
    and m2: "[0x207, 0] \<in> set (cmd_records stream_example)"
    by (simp_all add: stream_example_records)
  have o: "hdr_opcode 0x207 = MGPU_CMD_REG_READ"
    by (simp add: hdr_opcode_def cmd_defs)
  from mgpu_validate_commands_size_bounds [of quiet_mmio stream_example] stream_example_ok
  have all: "\<forall>r \<in> set (cmd_records stream_example).
           \<exists>lo hi. code_size_bounds (hdr_opcode (hd r)) = Some (lo, hi)
              \<and> lo \<le> hdr_size (hd r) \<and> hdr_size (hd r) \<le> hi
              \<and> unat (hdr_size (hd r)) = length r
              \<and> (hdr_opcode (hd r) = MGPU_CMD_REG_READ \<longrightarrow>
                    hdr_size (hd r) = 2 \<or> hdr_size (hd r) = 3)"
    by blast
  from all [rule_format, OF m1] all [rule_format, OF m2] o stream_example_ok show ?thesis
    by auto
qed

end
